theory Spec2Isabelle
  imports Complex_Main "HOL-Library.Log_Nat"
begin

section \<open>Python floats: IEEE-754 binary64 with round-to-nearest-even\<close>

text \<open>
  \<^verbatim>\<open>convert_unit\<close> computes on Python \<^verbatim>\<open>float\<close>s. A float is modelled by its value:
  a finite real, one of the two infinities, or NaN. The two zeros are one value
  \<open>Fin 0\<close>, as Python's \<^verbatim>\<open>==\<close> treats them; no operation of the program tells them
  apart (every divisor is a non-zero constant). The finite doubles are the reals
  \<open>m * 2 ^ k / 2 ^ 1074\<close> with \<open>\<bar>m\<bar> < 2 ^ 53\<close> below \<open>2 ^ 1024\<close> in magnitude; every
  arithmetic operation rounds its exact result to the nearest of them, ties to the
  even mantissa, and overflows to an infinity.
\<close>

datatype double = Fin real | PInf | NInf | NaN

text \<open>Rounding a real to the nearest integer, a tie to the even one.\<close>

definition rne :: "real \<Rightarrow> int" where
  "rne t = (let n = \<lfloor>t\<rfloor>; d = t - of_int n in
     if d < 1 / 2 then n else if 1 / 2 < d then n + 1 else if even n then n else n + 1)"

text \<open>The least positive double is \<open>1 / subnormal_scale\<close>.\<close>

definition subnormal_scale :: real where
  "subnormal_scale = 2 ^ 1074"

text \<open>
  The spacing of the doubles around \<open>x\<close> is \<open>2 ^ ulp_shift x / subnormal_scale\<close>:
  the scaled magnitude keeps its 53 leading bits.
\<close>

definition ulp_shift :: "real \<Rightarrow> nat" where
  "ulp_shift x = nat (bitlen \<lfloor>\<bar>x\<bar> * subnormal_scale\<rfloor> - 53)"

definition round_fin :: "real \<Rightarrow> real" where
  "round_fin x =
     of_int (rne (x * subnormal_scale / 2 ^ ulp_shift x)) * 2 ^ ulp_shift x / subnormal_scale"

definition rd :: "real \<Rightarrow> double" where
  "rd x = (let y = round_fin x in
     if 2 ^ 1024 \<le> y then PInf else if y \<le> - (2 ^ 1024) then NInf else Fin y)"

text \<open>What the program can raise inside \<^verbatim>\<open>convert_unit\<close>.\<close>

datatype exn = KeyError string | ZeroDivisionError

fun then_do :: "exn + 'a \<Rightarrow> ('a \<Rightarrow> exn + 'b) \<Rightarrow> exn + 'b" where
  "then_do (Inl e) k = Inl e"
| "then_do (Inr x) k = k x"

fun fneg :: "double \<Rightarrow> double" where
  "fneg (Fin a) = Fin (- a)"
| "fneg PInf = NInf"
| "fneg NInf = PInf"
| "fneg NaN = NaN"

fun fadd :: "double \<Rightarrow> double \<Rightarrow> double" where
  "fadd (Fin a) (Fin b) = rd (a + b)"
| "fadd NaN y = NaN"
| "fadd x NaN = NaN"
| "fadd PInf NInf = NaN"
| "fadd NInf PInf = NaN"
| "fadd (Fin a) y = y"
| "fadd x y = x"

definition fsub :: "double \<Rightarrow> double \<Rightarrow> double" where
  "fsub x y = fadd x (fneg y)"

fun fmul :: "double \<Rightarrow> double \<Rightarrow> double" where
  "fmul (Fin a) (Fin b) = rd (a * b)"
| "fmul NaN y = NaN"
| "fmul x NaN = NaN"
| "fmul (Fin a) y = (if a = 0 then NaN else if 0 < a then y else fneg y)"
| "fmul x (Fin b) = (if b = 0 then NaN else if 0 < b then x else fneg x)"
| "fmul x y = (if x = y then PInf else NInf)"

text \<open>Python's true division of floats raises on a zero divisor, whatever the dividend.\<close>

fun fdiv :: "double \<Rightarrow> double \<Rightarrow> exn + double" where
  "fdiv x (Fin b) =
     (if b = 0 then Inl ZeroDivisionError
      else Inr (case x of
                  Fin a \<Rightarrow> rd (a / b)
                | NaN \<Rightarrow> NaN
                | _ \<Rightarrow> if 0 < b then x else fneg x))"
| "fdiv NaN y = Inr NaN"
| "fdiv x NaN = Inr NaN"
| "fdiv (Fin a) y = Inr (Fin 0)"
| "fdiv x y = Inr NaN"

text \<open>Python's \<^verbatim>\<open>==\<close> on floats: NaN equals nothing, itself included.\<close>

definition feq :: "double \<Rightarrow> double \<Rightarrow> bool" where
  "feq x y = (x \<noteq> NaN \<and> y \<noteq> NaN \<and> x = y)"

text \<open>A finite value is a double when rounding leaves it as it is.\<close>

fun is_double :: "double \<Rightarrow> bool" where
  "is_double (Fin x) = (rd x = Fin x)"
| "is_double d = True"

section \<open>The unit catalog (\<^verbatim>\<open>utils.py\<close>)\<close>

text \<open>
  \<^verbatim>\<open>CONVERSION_CATEGORIES\<close>, reduced to the \<^verbatim>\<open>"units"\<close> entry of each category, in the
  order of the source; the symbol and the colour are read by the chart and the page
  only.
\<close>

definition CONVERSION_CATEGORIES :: "(string \<times> string list) list" where
  "CONVERSION_CATEGORIES =
    [(''Length'', [''meter'', ''kilometer'', ''centimeter'', ''millimeter'', ''mile'', ''yard'',
                  ''foot'', ''inch'']),
     (''Mass'', [''gram'', ''kilogram'', ''milligram'', ''pound'', ''ounce'', ''ton'']),
     (''Volume'', [''liter'', ''milliliter'', ''cubic_meter'', ''gallon'', ''quart'', ''pint'',
                  ''cup'', ''fluid_ounce'']),
     (''Temperature'', [''kelvin'', ''celsius'', ''fahrenheit'']),
     (''Time'', [''second'', ''minute'', ''hour'', ''day'', ''week'', ''month'', ''year'']),
     (''Speed'', [''meter_per_second'', ''kilometer_per_hour'', ''mile_per_hour'', ''knot'']),
     (''Area'', [''square_meter'', ''square_kilometer'', ''hectare'', ''acre'', ''square_foot'',
                ''square_inch'']),
     (''Data'', [''bit'', ''byte'', ''kilobyte'', ''megabyte'', ''gigabyte'', ''terabyte'']),
     (''Energy'', [''joule'', ''kilojoule'', ''calorie'', ''kilocalorie'', ''watt_hour'',
                  ''kilowatt_hour'']),
     (''Pressure'', [''pascal'', ''kilopascal'', ''bar'', ''atmosphere'', ''psi''])]"

text \<open>
  \<^verbatim>\<open>CONVERSION_FACTORS\<close>: each decimal literal of the source denotes the double nearest
  to it. No key occurs twice, so the first match of the association list is the
  dictionary's entry.
\<close>

definition CONVERSION_FACTORS :: "(string \<times> double) list" where
  "CONVERSION_FACTORS =
    [(''meter'', rd 1.0), (''kilometer'', rd 1000.0), (''centimeter'', rd 0.01),
     (''millimeter'', rd 0.001), (''mile'', rd 1609.344), (''yard'', rd 0.9144),
     (''foot'', rd 0.3048), (''inch'', rd 0.0254),
     (''gram'', rd 1.0), (''kilogram'', rd 1000.0), (''milligram'', rd 0.001),
     (''pound'', rd 453.59237), (''ounce'', rd 28.349523125), (''ton'', rd 1000000.0),
     (''liter'', rd 1.0), (''milliliter'', rd 0.001), (''cubic_meter'', rd 1000.0),
     (''gallon'', rd 3.78541178), (''quart'', rd 0.946352946), (''pint'', rd 0.473176473),
     (''cup'', rd 0.2365882365), (''fluid_ounce'', rd 0.0295735296875),
     (''second'', rd 1.0), (''minute'', rd 60.0), (''hour'', rd 3600.0), (''day'', rd 86400.0),
     (''week'', rd 604800.0), (''month'', rd 2592000.0), (''year'', rd 31536000.0),
     (''meter_per_second'', rd 1.0), (''kilometer_per_hour'', rd 0.277778),
     (''mile_per_hour'', rd 0.44704), (''knot'', rd 0.514444),
     (''square_meter'', rd 1.0), (''square_kilometer'', rd 1000000.0), (''hectare'', rd 10000.0),
     (''acre'', rd 4046.8564224), (''square_foot'', rd 0.09290304),
     (''square_inch'', rd 0.00064516),
     (''bit'', rd 0.125), (''byte'', rd 1.0), (''kilobyte'', rd 1024.0),
     (''megabyte'', rd 1048576.0), (''gigabyte'', rd 1073741824.0),
     (''terabyte'', rd 1099511627776.0),
     (''joule'', rd 1.0), (''kilojoule'', rd 1000.0), (''calorie'', rd 4.184),
     (''kilocalorie'', rd 4184.0), (''watt_hour'', rd 3600.0), (''kilowatt_hour'', rd 3600000.0),
     (''pascal'', rd 1.0), (''kilopascal'', rd 1000.0), (''bar'', rd 100000.0),
     (''atmosphere'', rd 101325.0), (''psi'', rd 6894.76)]"

text \<open>The subscript \<^verbatim>\<open>CONVERSION_FACTORS[unit]\<close>: a missing key raises \<^verbatim>\<open>KeyError\<close>.\<close>

definition factor :: "string \<Rightarrow> exn + double" where
  "factor unit_name =
     (case map_of CONVERSION_FACTORS unit_name of
        None \<Rightarrow> Inl (KeyError unit_name)
      | Some f \<Rightarrow> Inr f)"

section \<open>The conversion engine (\<^verbatim>\<open>convert_unit\<close>)\<close>

definition temperature_units :: "string list" where
  "temperature_units = [''celsius'', ''fahrenheit'', ''kelvin'']"

text \<open>The literal \<^verbatim>\<open>273.15\<close>.\<close>

definition kelvin_offset :: double where
  "kelvin_offset = rd 273.15"

text \<open>
  The branch of \<^verbatim>\<open>convert_unit\<close> for two temperature units. \<^verbatim>\<open>x * 5/9\<close> is
  \<^verbatim>\<open>(x * 5) / 9\<close>; the integers 32, 5 and 9 become floats exactly.
\<close>

definition temperature_path :: "double \<Rightarrow> string \<Rightarrow> string \<Rightarrow> exn + double" where
  "temperature_path v from_unit to_unit =
     then_do
       (if from_unit = ''celsius'' then Inr (fadd v kelvin_offset)
        else if from_unit = ''fahrenheit'' then
          then_do (fdiv (fmul (fsub v (Fin 32)) (Fin 5)) (Fin 9))
            (\<lambda>q. Inr (fadd q kelvin_offset))
        else Inr v)
       (\<lambda>kelvin_value.
          if to_unit = ''celsius'' then Inr (fsub kelvin_value kelvin_offset)
          else if to_unit = ''fahrenheit'' then
            then_do (fdiv (fmul (fsub kelvin_value kelvin_offset) (Fin 9)) (Fin 5))
              (\<lambda>q. Inr (fadd q (Fin 32)))
          else Inr kelvin_value)"

text \<open>
  The branch for all other units: the factor of the source unit is looked up and
  multiplied in before the factor of the target unit is looked up.
\<close>

definition linear_path :: "double \<Rightarrow> string \<Rightarrow> string \<Rightarrow> exn + double" where
  "linear_path v from_unit to_unit =
     then_do (factor from_unit) (\<lambda>f_from.
       let base_value = fmul v f_from in
       then_do (factor to_unit) (\<lambda>f_to. fdiv base_value f_to))"

text \<open>The body of the \<^verbatim>\<open>try\<close> block.\<close>

definition convert_try :: "double \<Rightarrow> string \<Rightarrow> string \<Rightarrow> exn + double" where
  "convert_try v from_unit to_unit =
     (if from_unit \<in> set temperature_units \<and> to_unit \<in> set temperature_units
      then temperature_path v from_unit to_unit
      else linear_path v from_unit to_unit)"

text \<open>
  What the page shows through \<^verbatim>\<open>st.error\<close>, by the handler that wrote it; the
  exception stands for its text.
\<close>

datatype ui_message = ConversionError exn | KeyErrorMessage exn | UpdateError exn

text \<open>
  \<^verbatim>\<open>convert_unit\<close>: the first component is what the caller gets (\<open>Inl\<close> an exception
  that leaves the function, \<open>Inr\<close> the returned float), the second the calls of
  \<^verbatim>\<open>st.error\<close>. The handler \<^verbatim>\<open>except Exception\<close> catches everything the body raises,
  reports it and returns \<^verbatim>\<open>0.0\<close>.
\<close>

definition convert_unit :: "double \<Rightarrow> string \<Rightarrow> string \<Rightarrow> (exn + double) \<times> ui_message list" where
  "convert_unit v from_unit to_unit =
     (case convert_try v from_unit to_unit of
        Inr r \<Rightarrow> (Inr r, [])
      | Inl e \<Rightarrow> (Inr (Fin 0), [ConversionError e]))"

section \<open>The session and its history (\<^verbatim>\<open>app.py\<close>)\<close>

record conversion_record =
  timestamp :: string
  category :: string
  from_value :: double
  from_unit :: string
  to_value :: double
  to_unit :: string

text \<open>
  The entries of \<^verbatim>\<open>st.session_state\<close> that \<^verbatim>\<open>update_result\<close> reads or writes.
  \<^verbatim>\<open>input_value\<close> is the float of the number input, so \<^verbatim>\<open>float(...)\<close> returns it as it
  is.
\<close>

record session_state =
  current_category :: string
  input_value :: double
  from_unit :: string
  to_unit :: string
  result :: double
  conversion_history :: "conversion_record list"

text \<open>Lines 78 to 80: \<^verbatim>\<open>history[-10:]\<close> once the list is longer than ten.\<close>

definition keep_last_10 :: "conversion_record list \<Rightarrow> conversion_record list" where
  "keep_last_10 h = (if length h > 10 then drop (length h - 10) h else h)"

text \<open>
  \<^verbatim>\<open>update_result\<close>, with the reading of the clock (\<^verbatim>\<open>time.strftime\<close>) as the argument
  \<open>now\<close>. An exception leaving \<^verbatim>\<open>convert_unit\<close> would skip the rest of the \<^verbatim>\<open>try\<close>
  block and reach the handlers, which only report it.
\<close>

definition update_result :: "string \<Rightarrow> session_state \<Rightarrow> session_state \<times> ui_message list" where
  "update_result now s =
     (let v = input_value s;
          from_u = session_state.from_unit s;
          to_u = session_state.to_unit s
      in case convert_unit v from_u to_u of
           (Inr r, shown) \<Rightarrow>
             (s\<lparr>result := r,
                conversion_history := keep_last_10 (conversion_history s @
                  [\<lparr>timestamp = now, category = current_category s, from_value = v,
                    conversion_record.from_unit = from_u, to_value = r,
                    conversion_record.to_unit = to_u\<rparr>])\<rparr>,
              shown)
         | (Inl e, shown) \<Rightarrow>
             (s, shown @ [case e of KeyError k \<Rightarrow> KeyErrorMessage e | _ \<Rightarrow> UpdateError e]))"

text \<open>The session as lines 34 to 45 of \<^verbatim>\<open>app.py\<close> initialise it.\<close>

definition initial_session :: session_state where
  "initial_session =
     \<lparr>current_category = ''Length'', input_value = rd 1.0,
      session_state.from_unit = ''meter'', session_state.to_unit = ''kilometer'',
      result = rd 0.001, conversion_history = []\<rparr>"

section \<open>Notions of the specification\<close>

text \<open>
  The temperature path as the specification words it: a normalisation to kelvin
  followed by a denormalisation from kelvin, each by cases on the unit. The divisors
  9 and 5 are constants, so nothing can be raised.
\<close>

datatype temp_unit = Celsius | Fahrenheit | Kelvin

definition temp_unit_of :: "string \<Rightarrow> temp_unit option" where
  "temp_unit_of u =
     (if u = ''celsius'' then Some Celsius
      else if u = ''fahrenheit'' then Some Fahrenheit
      else if u = ''kelvin'' then Some Kelvin
      else None)"

definition div_const :: "double \<Rightarrow> real \<Rightarrow> double" where
  "div_const x c = (case fdiv x (Fin c) of Inr q \<Rightarrow> q | Inl e \<Rightarrow> NaN)"

fun normalize_to_kelvin :: "temp_unit \<Rightarrow> double \<Rightarrow> double" where
  "normalize_to_kelvin Celsius v = fadd v kelvin_offset"
| "normalize_to_kelvin Fahrenheit v =
     fadd (div_const (fmul (fsub v (Fin 32)) (Fin 5)) 9) kelvin_offset"
| "normalize_to_kelvin Kelvin v = v"

fun denormalize_from_kelvin :: "temp_unit \<Rightarrow> double \<Rightarrow> double" where
  "denormalize_from_kelvin Celsius k = fsub k kelvin_offset"
| "denormalize_from_kelvin Fahrenheit k =
     fadd (div_const (fmul (fsub k kelvin_offset) (Fin 9)) 5) (Fin 32)"
| "denormalize_from_kelvin Kelvin k = k"

text \<open>All unit names of the catalog, category by category.\<close>

definition catalog_units :: "string list" where
  "catalog_units = concat (map snd CONVERSION_CATEGORIES)"

text \<open>A result within the relative tolerance \<open>tol\<close> of the real \<open>x\<close>.\<close>

definition close_to :: "real \<Rightarrow> double \<Rightarrow> real \<Rightarrow> bool" where
  "close_to tol r x = (case r of Fin z \<Rightarrow> \<bar>z - x\<bar> \<le> tol * \<bar>x\<bar> | _ \<Rightarrow> False)"

text \<open>
  A run of the page: before each call of \<^verbatim>\<open>update_result\<close> the widgets store the
  category, the entered value and the two units in the session.
\<close>

record conversion_request =
  at_time :: string
  in_category :: string
  entered :: double
  source_unit :: string
  target_unit :: string

definition enter :: "conversion_request \<Rightarrow> session_state \<Rightarrow> session_state" where
  "enter q s =
     s\<lparr>current_category := in_category q, input_value := entered q,
       session_state.from_unit := source_unit q, session_state.to_unit := target_unit q\<rparr>"

fun run_updates :: "conversion_request list \<Rightarrow> session_state \<Rightarrow> session_state" where
  "run_updates [] s = s"
| "run_updates (q # qs) s = run_updates qs (fst (update_result (at_time q) (enter q s)))"

text \<open>The record that a request leaves in the history.\<close>

definition returned_value :: "conversion_request \<Rightarrow> double" where
  "returned_value q =
     (case fst (convert_unit (entered q) (source_unit q) (target_unit q)) of
        Inr r \<Rightarrow> r
      | Inl e \<Rightarrow> NaN)"

definition record_of :: "conversion_request \<Rightarrow> conversion_record" where
  "record_of q =
     \<lparr>timestamp = at_time q, category = in_category q, from_value = entered q,
      conversion_record.from_unit = source_unit q,
      to_value = returned_value q,
      conversion_record.to_unit = target_unit q\<rparr>"

text \<open>
  The session after \<^verbatim>\<open>update_result\<close> has stored the result \<open>r\<close> and appended its
  record.
\<close>

definition with_record :: "string \<Rightarrow> session_state \<Rightarrow> double \<Rightarrow> session_state" where
  "with_record now s r =
     s\<lparr>result := r,
       conversion_history := keep_last_10 (conversion_history s @
         [\<lparr>timestamp = now, category = current_category s, from_value = input_value s,
           conversion_record.from_unit = session_state.from_unit s, to_value = r,
           conversion_record.to_unit = session_state.to_unit s\<rparr>])\<rparr>"

text \<open>Fifteen requests, told apart by the entered value.\<close>

definition sample_request :: "nat \<Rightarrow> conversion_request" where
  "sample_request n =
     \<lparr>at_time = ''2023-01-01 12:00:00'', in_category = ''Length'', entered = Fin (real n),
      source_unit = ''meter'', target_unit = ''kilometer''\<rparr>"

definition sample_requests :: "conversion_request list" where
  "sample_requests = map sample_request [0, 1, 2, 3, 4, 5, 6, 7, 8, 9, 10, 11, 12, 13, 14]"

section \<open>Rounding: error bounds and evaluation\<close>

lemma subnormal_scale_pos: "0 < subnormal_scale"
  by (simp add: subnormal_scale_def)

lemma rne_error: "\<bar>of_int (rne t) - t\<bar> \<le> 1 / 2"
  unfolding rne_def Let_def by (auto; linarith)

lemma rne_near: "\<bar>t - of_int m\<bar> < 1 / 2 \<Longrightarrow> rne t = m"
proof -
  assume a: "\<bar>t - of_int m\<bar> < 1 / 2"
  have "\<lfloor>t\<rfloor> = m \<or> \<lfloor>t\<rfloor> = m - 1" using a by (auto simp: floor_eq_iff; linarith)
  then show ?thesis
    using a unfolding rne_def Let_def by (auto; linarith)
qed

lemma rne_of_int: "rne (of_int n) = n"
  by (rule rne_near) simp

lemma ulp_shift_eq:
  assumes "2 ^ (52 + k) \<le> \<bar>x\<bar> * subnormal_scale" and "\<bar>x\<bar> * subnormal_scale < 2 ^ (53 + k)"
  shows "ulp_shift x = k"
proof -
  let ?n = "\<lfloor>\<bar>x\<bar> * subnormal_scale\<rfloor>"
  have lo: "(2::int) ^ (52 + k) \<le> ?n" using assms(1) by (simp add: le_floor_iff)
  have hi: "?n < (2::int) ^ (53 + k)" using assms(2) by (simp add: floor_less_iff)
  have "bitlen ?n \<le> int (53 + k)"
    unfolding bitlen_le_iff_power using hi by (simp only: nat_int) simp
  moreover have "int (53 + k) \<le> bitlen ?n"
    unfolding bitlen_ge_iff_power using lo by (simp only: nat_int) simp
  ultimately have "bitlen ?n = int (53 + k)" by linarith
  then show ?thesis by (simp add: ulp_shift_def)
qed

lemma ulp_shift_subnormal:
  assumes "\<bar>x\<bar> * subnormal_scale < 2 ^ 53"
  shows "ulp_shift x = 0"
proof -
  have "\<lfloor>\<bar>x\<bar> * subnormal_scale\<rfloor> < (2::int) ^ 53" using assms by (simp add: floor_less_iff)
  then have "bitlen \<lfloor>\<bar>x\<bar> * subnormal_scale\<rfloor> \<le> 53" by (simp add: bitlen_le_iff_power)
  then show ?thesis by (simp add: ulp_shift_def)
qed

lemma ulp_shift_lower:
  assumes "2 ^ 52 \<le> \<bar>x\<bar> * subnormal_scale"
  shows "2 ^ (52 + ulp_shift x) \<le> \<bar>x\<bar> * subnormal_scale"
proof -
  let ?n = "\<lfloor>\<bar>x\<bar> * subnormal_scale\<rfloor>"
  have lo: "(2::int) ^ 52 \<le> ?n" using assms by (simp add: le_floor_iff)
  have "(0::int) < 2 ^ 52" by simp
  with lo have pos: "0 < ?n" by linarith
  have "53 \<le> bitlen ?n" using lo by (simp add: bitlen_ge_iff_power)
  then have eq: "nat (bitlen ?n - 1) = 52 + ulp_shift x" by (simp add: ulp_shift_def)
  have "(2::int) ^ nat (bitlen ?n - 1) \<le> ?n" using bitlen_bounds [OF pos] by blast
  then have "(2::int) ^ (52 + ulp_shift x) \<le> ?n" by (simp only: eq)
  then have "of_int ((2::int) ^ (52 + ulp_shift x)) \<le> (of_int ?n :: real)" by (simp only: of_int_le_iff)
  also have "\<dots> \<le> \<bar>x\<bar> * subnormal_scale" by (rule of_int_floor_le)
  finally show ?thesis by simp
qed

lemma round_fin_error:
  assumes "1 / 2 ^ 1022 \<le> \<bar>x\<bar>"
  shows "\<bar>round_fin x - x\<bar> \<le> \<bar>x\<bar> / 2 ^ 53"
proof -
  define k where "k = ulp_shift x"
  define t where "t = x * subnormal_scale / 2 ^ k"
  note S = subnormal_scale_pos
  have n: "(2::real) ^ 52 \<le> \<bar>x\<bar> * subnormal_scale"
  proof -
    have "(2::real) ^ 52 = 1 / 2 ^ 1022 * subnormal_scale" by (simp add: subnormal_scale_def)
    also have "\<dots> \<le> \<bar>x\<bar> * subnormal_scale" using assms S by (intro mult_right_mono) simp_all
    finally show ?thesis .
  qed
  have lo: "(2::real) ^ (52 + k) \<le> \<bar>x\<bar> * subnormal_scale"
    unfolding k_def by (rule ulp_shift_lower [OF n])
  have x_eq: "x = t * 2 ^ k / subnormal_scale" using S by (simp add: t_def)
  have "round_fin x = of_int (rne t) * 2 ^ k / subnormal_scale"
    by (simp add: round_fin_def k_def t_def)
  then have "round_fin x - x = (of_int (rne t) - t) * 2 ^ k / subnormal_scale"
    by (subst (2) x_eq) (simp add: algebra_simps diff_divide_distrib)
  then have "\<bar>round_fin x - x\<bar> = \<bar>of_int (rne t) - t\<bar> * 2 ^ k / subnormal_scale"
    using S by (simp add: abs_mult)
  also have "\<dots> \<le> 1 / 2 * 2 ^ k / subnormal_scale"
    using S by (intro divide_right_mono mult_right_mono rne_error) simp_all
  also have "\<dots> = 2 ^ (52 + k) / subnormal_scale / 2 ^ 53" by (simp add: power_add)
  also have "\<dots> \<le> \<bar>x\<bar> / 2 ^ 53"
  proof -
    have "(2::real) ^ (52 + k) / subnormal_scale \<le> \<bar>x\<bar>" using lo S by (simp add: field_simps)
    then show ?thesis by (intro divide_right_mono) simp_all
  qed
  finally show ?thesis .
qed

lemma rd_zero: "rd 0 = Fin 0"
proof -
  have "ulp_shift 0 = 0" by (simp add: ulp_shift_def)
  then have "round_fin 0 = 0" by (simp add: round_fin_def rne_of_int [of 0, simplified])
  then show ?thesis by (simp add: rd_def)
qed

lemma rd_normal:
  assumes "1 / 2 ^ 1022 \<le> \<bar>x\<bar>" and "\<bar>x\<bar> \<le> 2 ^ 1023"
  shows "rd x = Fin (round_fin x)"
proof -
  have e: "\<bar>round_fin x - x\<bar> \<le> \<bar>x\<bar> / 2 ^ 53" by (rule round_fin_error [OF assms(1)])
  have "\<bar>x\<bar> / 2 ^ 53 \<le> 2 ^ 1023 / 2 ^ 53" using assms(2) by (intro divide_right_mono) simp_all
  with e have "\<bar>round_fin x - x\<bar> \<le> 2 ^ 1023 / 2 ^ 53" by linarith
  with assms(2) have "\<bar>round_fin x\<bar> \<le> 2 ^ 1023 + 2 ^ 1023 / 2 ^ 53" by linarith
  also have "\<dots> < (2::real) ^ 1024" by simp
  finally have "\<bar>round_fin x\<bar> < 2 ^ 1024" .
  then have "\<not> 2 ^ 1024 \<le> round_fin x" and "\<not> round_fin x \<le> - (2 ^ 1024)" by linarith+
  then show ?thesis by (simp add: rd_def)
qed

lemma rd_range:
  assumes "lo \<le> x" and "x \<le> hi" and "1 / 2 ^ 1022 \<le> lo" and "hi \<le> 2 ^ 1023"
  shows "\<exists>f. rd x = Fin f \<and> lo * (1 - 1 / 2 ^ 53) \<le> f \<and> f \<le> hi * (1 + 1 / 2 ^ 53)"
proof -
  have "(0::real) < 1 / 2 ^ 1022" by simp
  with assms have pos: "0 < x" by linarith
  have n: "1 / 2 ^ 1022 \<le> \<bar>x\<bar>" and m: "\<bar>x\<bar> \<le> 2 ^ 1023" using assms pos by linarith+
  have e: "\<bar>round_fin x - x\<bar> \<le> x / 2 ^ 53" using round_fin_error [OF n] pos by simp
  have l: "lo * (1 - 1 / 2 ^ 53) \<le> x * (1 - 1 / 2 ^ 53)"
    using assms(1) by (intro mult_right_mono) simp_all
  have h: "x * (1 + 1 / 2 ^ 53) \<le> hi * (1 + 1 / 2 ^ 53)"
    using assms(2) by (intro mult_right_mono) simp_all
  have "x - x / 2 ^ 53 \<le> round_fin x" and "round_fin x \<le> x + x / 2 ^ 53"
    using e by linarith+
  then have "x * (1 - 1 / 2 ^ 53) \<le> round_fin x" and "round_fin x \<le> x * (1 + 1 / 2 ^ 53)"
    by (simp_all add: algebra_simps)
  with l h have "lo * (1 - 1 / 2 ^ 53) \<le> round_fin x \<and> round_fin x \<le> hi * (1 + 1 / 2 ^ 53)"
    by linarith
  then show ?thesis using rd_normal [OF n m] by blast
qed

lemma rd_table_range:
  assumes "5 / 10000 \<le> x" and "x \<le> 2 ^ 40"
  shows "\<exists>f. rd x = Fin f \<and> 1 / 2 ^ 11 \<le> f \<and> f \<le> 2 ^ 41"
proof -
  obtain f where f: "rd x = Fin f" "5 / 10000 * (1 - 1 / 2 ^ 53) \<le> f" "f \<le> 2 ^ 40 * (1 + 1 / 2 ^ 53)"
    using rd_range [OF assms] by auto
  have "(1::real) / 2 ^ 11 \<le> 5 / 10000 * (1 - 1 / 2 ^ 53)" by simp
  moreover have "(2::real) ^ 40 * (1 + 1 / 2 ^ 53) \<le> 2 ^ 41" by simp
  ultimately show ?thesis using f by (intro exI [of _ f]) simp
qed

lemma factor_table_range:
  "\<forall>(u, d) \<in> set CONVERSION_FACTORS. \<exists>f. d = Fin f \<and> 1 / 2 ^ 11 \<le> f \<and> f \<le> 2 ^ 41"
  unfolding CONVERSION_FACTORS_def
  by (simp del: power_numeral; intro conjI rd_table_range; simp)

lemma round_fin_eval:
  assumes e: "- 1022 \<le> e" 
    and lo: "2 powi e \<le> \<bar>x\<bar>" and hi: "\<bar>x\<bar> < 2 powi (e + 1)"
    and m: "\<bar>x * 2 powi (52 - e) - of_int m\<bar> < 1 / 2"
  shows "round_fin x = of_int m / 2 powi (52 - e)"
proof -
  define k where "k = nat (e + 1022)"
  have ke: "int k = e + 1022" using e by (simp add: k_def)
  have S: "subnormal_scale = 2 powi 1074" by (simp add: subnormal_scale_def)
  have p1: "(2::real) ^ (52 + k) = 2 powi e * subnormal_scale"
  proof -
    have "(2::real) ^ (52 + k) = 2 powi (int (52 + k))" by (simp only: power_int_of_nat)
    also have "int (52 + k) = e + 1074" using ke by simp
    also have "(2::real) powi (e + 1074) = 2 powi e * 2 powi 1074" by (simp add: power_int_add)
    finally show ?thesis by (simp only: S)
  qed
  have p2: "(2::real) ^ (53 + k) = 2 powi (e + 1) * subnormal_scale"
  proof -
    have "(2::real) ^ (53 + k) = 2 powi (int (53 + k))" by (simp only: power_int_of_nat)
    also have "int (53 + k) = (e + 1) + 1074" using ke by simp
    also have "(2::real) powi ((e + 1) + 1074) = 2 powi (e + 1) * 2 powi 1074"
      by (rule power_int_add) simp
    finally show ?thesis by (simp only: S)
  qed
  have sc: "subnormal_scale / 2 ^ k = 2 powi (52 - e)"
  proof -
    have "(2::real) ^ k = 2 powi (int k)" by (simp only: power_int_of_nat)
    then have "subnormal_scale / 2 ^ k = 2 powi 1074 / 2 powi (e + 1022)" by (simp only: S ke)
    also have "\<dots> = 2 powi (1074 - (e + 1022))" by (rule power_int_diff [symmetric]) simp
    also have "1074 - (e + 1022) = 52 - e" by simp
    finally show ?thesis .
  qed
  have "ulp_shift x = k"
  proof (rule ulp_shift_eq)
    show "2 ^ (52 + k) \<le> \<bar>x\<bar> * subnormal_scale"
      unfolding p1 using lo subnormal_scale_pos by (intro mult_right_mono) simp_all
    show "\<bar>x\<bar> * subnormal_scale < 2 ^ (53 + k)"
      unfolding p2 using hi subnormal_scale_pos by (intro mult_strict_right_mono) simp_all
  qed
  then have "round_fin x = of_int (rne (x * (subnormal_scale / 2 ^ k))) / (subnormal_scale / 2 ^ k)"
    by (simp add: round_fin_def)
  also have "\<dots> = of_int (rne (x * 2 powi (52 - e))) / 2 powi (52 - e)" by (simp only: sc)
  also have "rne (x * 2 powi (52 - e)) = m" by (rule rne_near [OF m])
  finally show ?thesis .
qed

lemma rd_eval:
  assumes "- 1022 \<le> e" and "e \<le> 1022"
    and "2 powi e \<le> \<bar>x\<bar>" and "\<bar>x\<bar> < 2 powi (e + 1)"
    and "\<bar>x * 2 powi (52 - e) - of_int m\<bar> < 1 / 2"
  shows "rd x = Fin (of_int m / 2 powi (52 - e))"
proof -
  have r: "round_fin x = of_int m / 2 powi (52 - e)"
    by (rule round_fin_eval [OF assms(1,3,4,5)])
  have "(1::real) / 2 ^ 1022 = 2 powi (- 1022)" by (simp add: power_int_minus_divide)
  also have "\<dots> \<le> 2 powi e" using assms(1) by (intro power_int_increasing) simp_all
  finally have n: "1 / 2 ^ 1022 \<le> \<bar>x\<bar>" using assms(3) by linarith
  have "(2::real) powi (e + 1) \<le> 2 powi 1023" using assms(2) by (intro power_int_increasing) simp_all
  then have "\<bar>x\<bar> \<le> 2 ^ 1023" using assms(4) by simp
  from rd_normal [OF n this] r show ?thesis by simp
qed

lemma rd_exact:
  assumes "- 1022 \<le> e" and "e \<le> 1022"
    and "2 powi e \<le> \<bar>x\<bar>" and "\<bar>x\<bar> < 2 powi (e + 1)"
    and "x * 2 powi (52 - e) = of_int m"
  shows "rd x = Fin x"
proof -
  have "\<bar>x * 2 powi (52 - e) - of_int m\<bar> < 1 / 2" using assms(5) by simp
  from rd_eval [OF assms(1-4) this] have "rd x = Fin (of_int m / 2 powi (52 - e))" .
  also have "of_int m / 2 powi (52 - e) = x"
    using assms(5) [symmetric] by simp
  finally show ?thesis .
qed

lemma rd_rel_error:
  assumes n: "1 / 2 ^ 1022 \<le> \<bar>z\<bar>" and m: "\<bar>z\<bar> \<le> 2 ^ 1023"
  shows "\<exists>d. rd z = Fin (z * (1 + d)) \<and> \<bar>d\<bar> \<le> 1 / 2 ^ 53"
proof -
  have "(0::real) < 1 / 2 ^ 1022" by simp
  with n have z: "z \<noteq> 0" by auto
  define d where "d = (round_fin z - z) / z"
  have "\<bar>d\<bar> = \<bar>round_fin z - z\<bar> / \<bar>z\<bar>" by (simp add: d_def)
  also have "\<dots> \<le> (\<bar>z\<bar> / 2 ^ 53) / \<bar>z\<bar>"
    by (intro divide_right_mono round_fin_error [OF n]) simp
  also have "\<dots> = 1 / 2 ^ 53" using z by simp
  finally have "\<bar>d\<bar> \<le> 1 / 2 ^ 53" .
  moreover have "z * (1 + d) = round_fin z" using z by (simp add: d_def field_simps)
  ultimately show ?thesis using rd_normal [OF n m] by (intro exI [of _ d]) simp
qed

lemma rel_error_size:
  assumes "\<bar>d::real\<bar> \<le> 1 / 2 ^ 53"
  shows "\<bar>z\<bar> / 2 \<le> \<bar>z * (1 + d)\<bar>" and "\<bar>z * (1 + d)\<bar> \<le> 2 * \<bar>z\<bar>"
proof -
  have "(1::real) / 2 ^ 53 \<le> 1 / 2" by simp
  with assms have d: "1 / 2 \<le> 1 + d" "1 + d \<le> 2" by (auto simp: abs_le_iff)
  then have a: "\<bar>1 + d\<bar> = 1 + d" by simp
  have "\<bar>z\<bar> * (1 / 2) \<le> \<bar>z\<bar> * (1 + d)" using d by (intro mult_left_mono) simp_all
  then show "\<bar>z\<bar> / 2 \<le> \<bar>z * (1 + d)\<bar>" by (simp add: abs_mult a)
  have "\<bar>z\<bar> * (1 + d) \<le> \<bar>z\<bar> * 2" using d by (intro mult_left_mono) simp_all
  then show "\<bar>z * (1 + d)\<bar> \<le> 2 * \<bar>z\<bar>" by (simp add: abs_mult a)
qed

lemma compose_rel_error:
  assumes "\<bar>d1::real\<bar> \<le> e1" and "\<bar>d2\<bar> \<le> e2"
  shows "\<bar>(1 + d1) * (1 + d2) - 1\<bar> \<le> e1 + e2 + e1 * e2"
proof -
  have "(1 + d1) * (1 + d2) - 1 = d1 + d2 + d1 * d2" by (simp add: algebra_simps)
  moreover have "\<bar>d1 + d2 + d1 * d2\<bar> \<le> \<bar>d1\<bar> + \<bar>d2\<bar> + \<bar>d1 * d2\<bar>" by linarith
  ultimately have "\<bar>(1 + d1) * (1 + d2) - 1\<bar> \<le> \<bar>d1\<bar> + \<bar>d2\<bar> + \<bar>d1\<bar> * \<bar>d2\<bar>"
    by (simp only: abs_mult)
  moreover have "\<bar>d1\<bar> * \<bar>d2\<bar> \<le> e1 * e2"
    using assms by (intro mult_mono) simp_all
  ultimately show ?thesis using assms by linarith
qed

lemma two_roundings:
  assumes "\<bar>d1::real\<bar> \<le> 1 / 2 ^ 53" and "\<bar>d2\<bar> \<le> 1 / 2 ^ 53"
  shows "\<bar>(1 + d1) * (1 + d2) - 1\<bar> \<le> 1 / 2 ^ 51"
proof -
  have "\<bar>(1 + d1) * (1 + d2) - 1\<bar> \<le> 1 / 2 ^ 53 + 1 / 2 ^ 53 + 1 / 2 ^ 53 * (1 / 2 ^ 53)"
    by (rule compose_rel_error [OF assms])
  also have "\<dots> \<le> (1::real) / 2 ^ 51" by simp
  finally show ?thesis .
qed

lemma four_roundings:
  assumes "\<bar>d1::real\<bar> \<le> 1 / 2 ^ 53" and "\<bar>d2\<bar> \<le> 1 / 2 ^ 53"
    and "\<bar>d3\<bar> \<le> 1 / 2 ^ 53" and "\<bar>d4\<bar> \<le> 1 / 2 ^ 53"
  shows "\<bar>((1 + d1) * (1 + d2)) * ((1 + d3) * (1 + d4)) - 1\<bar> \<le> 1 / 10 ^ 9"
proof -
  define p where "p = (1 + d1) * (1 + d2) - 1"
  define q where "q = (1 + d3) * (1 + d4) - 1"
  define E :: real where "E = 1 / 2 ^ 53 + 1 / 2 ^ 53 + 1 / 2 ^ 53 * (1 / 2 ^ 53)"
  have p: "\<bar>p\<bar> \<le> E" unfolding p_def E_def by (rule compose_rel_error [OF assms(1,2)])
  have q: "\<bar>q\<bar> \<le> E" unfolding q_def E_def by (rule compose_rel_error [OF assms(3,4)])
  have "\<bar>(1 + p) * (1 + q) - 1\<bar> \<le> E + E + E * E" by (rule compose_rel_error [OF p q])
  also have "\<dots> \<le> 1 / 10 ^ 9" by (simp add: E_def)
  finally show ?thesis by (simp add: p_def q_def)
qed

lemma scaled_error:
  assumes "\<bar>P - 1\<bar> \<le> (e::real)"
  shows "\<bar>x * P - x\<bar> \<le> \<bar>x\<bar> * e"
proof -
  have "x * P - x = x * (P - 1)" by (simp add: algebra_simps)
  then have "\<bar>x * P - x\<bar> = \<bar>x\<bar> * \<bar>P - 1\<bar>" by (simp add: abs_mult)
  also have "\<dots> \<le> \<bar>x\<bar> * e" using assms by (intro mult_left_mono) simp_all
  finally show ?thesis .
qed

lemma rne_numeral: "rne (numeral n) = numeral n"
  using rne_of_int [of "numeral n"] by simp

section \<open>Every result is a double\<close>

text \<open>
  Rounding is symmetric and leaves its own results as they are, so every operation,
  and with them \<^verbatim>\<open>convert_unit\<close>, maps doubles to doubles.
\<close>

lemma rne_cases: "rne t = \<lfloor>t\<rfloor> \<or> rne t = \<lfloor>t\<rfloor> + 1"
  by (simp add: rne_def Let_def)

lemma rne_ge: "of_int n \<le> t \<Longrightarrow> n \<le> rne t"
proof -
  assume "of_int n \<le> t"
  then have "n \<le> \<lfloor>t\<rfloor>" by (simp add: le_floor_iff)
  then show ?thesis using rne_cases [of t] by linarith
qed

lemma rne_le: "t \<le> of_int n \<Longrightarrow> rne t \<le> n"
proof (cases "t = of_int n")
  case True
  then show ?thesis by (simp add: rne_of_int)
next
  case False
  assume "t \<le> of_int n"
  with False have "t < of_int n" by simp
  then have "\<lfloor>t\<rfloor> < n" by (simp add: floor_less_iff)
  then show ?thesis using rne_cases [of t] by linarith
qed

lemma rne_tie: "\<bar>t - of_int m\<bar> = 1 / 2 \<Longrightarrow> even m \<Longrightarrow> rne t = m"
proof -
  assume a: "\<bar>t - of_int m\<bar> = 1 / 2" and e: "even m"
  have "t = of_int m + 1 / 2 \<or> t = of_int (m - 1) + 1 / 2" using a by (auto simp: abs_if split: if_splits)
  then show ?thesis
  proof
    assume t: "t = of_int m + 1 / 2"
    then have "\<lfloor>t\<rfloor> = m" by (simp add: floor_eq_iff)
    then show ?thesis using t e by (simp add: rne_def)
  next
    assume t: "t = of_int (m - 1) + 1 / 2"
    then have f: "\<lfloor>t\<rfloor> = m - 1" by (subst floor_eq_iff) simp
    have "t - of_int (m - 1) = 1 / 2" using t by simp
    then show ?thesis using f e by (simp add: rne_def)
  qed
qed

lemma rne_property: "\<bar>t - of_int (rne t)\<bar> < 1 / 2 \<or> (\<bar>t - of_int (rne t)\<bar> = 1 / 2 \<and> even (rne t))"
  unfolding rne_def Let_def by (auto; linarith)

lemma rne_minus: "rne (- t) = - rne t"
proof -
  from rne_property [of t] show ?thesis
  proof
    assume "\<bar>t - of_int (rne t)\<bar> < 1 / 2"
    then have "\<bar>- t - of_int (- rne t)\<bar> < 1 / 2" by (simp add: abs_minus_commute)
    then show ?thesis by (rule rne_near)
  next
    assume a: "\<bar>t - of_int (rne t)\<bar> = 1 / 2 \<and> even (rne t)"
    then have "\<bar>- t - of_int (- rne t)\<bar> = 1 / 2" by (simp add: abs_minus_commute)
    moreover have "even (- rne t)" using a by simp
    ultimately show ?thesis by (rule rne_tie)
  qed
qed

lemma ulp_shift_minus: "ulp_shift (- x) = ulp_shift x"
  by (simp add: ulp_shift_def)

lemma round_fin_minus: "round_fin (- x) = - round_fin x"
  using rne_minus [of "x * subnormal_scale / 2 ^ ulp_shift x"]
  by (simp add: round_fin_def ulp_shift_minus)

lemma ulp_shift_upper: "\<bar>x\<bar> * subnormal_scale < 2 ^ (53 + ulp_shift x)"
proof -
  let ?n = "\<lfloor>\<bar>x\<bar> * subnormal_scale\<rfloor>"
  have "bitlen ?n \<le> int (53 + ulp_shift x)" by (simp add: ulp_shift_def)
  then have "?n < 2 ^ (53 + ulp_shift x)"
    unfolding bitlen_le_iff_power by (simp only: nat_int)
  then show ?thesis by (simp add: floor_less_iff)
qed

lemma ulp_shift_lower_pos:
  assumes "0 < ulp_shift x"
  shows "2 ^ (52 + ulp_shift x) \<le> \<bar>x\<bar> * subnormal_scale"
proof (rule ulp_shift_lower)
  let ?n = "\<lfloor>\<bar>x\<bar> * subnormal_scale\<rfloor>"
  from assms have "53 \<le> bitlen ?n" by (simp add: ulp_shift_def)
  then have "(2::int) ^ 52 \<le> ?n" by (simp add: bitlen_ge_iff_power)
  then have "of_int ((2::int) ^ 52) \<le> (of_int ?n :: real)" by (simp only: of_int_le_iff)
  also have "\<dots> \<le> \<bar>x\<bar> * subnormal_scale" by (rule of_int_floor_le)
  finally show "2 ^ 52 \<le> \<bar>x\<bar> * subnormal_scale" by simp
qed

lemma round_fin_nonneg_fixed:
  assumes "0 \<le> x"
  shows "round_fin (round_fin x) = round_fin x"
proof -
  note S = subnormal_scale_pos
  define k where "k = ulp_shift x"
  define t where "t = x * subnormal_scale / 2 ^ k"
  define m where "m = rne t"
  define y where "y = of_int m * 2 ^ k / subnormal_scale"
  have y: "round_fin x = y" by (simp add: round_fin_def y_def m_def t_def k_def)
  have t0: "0 \<le> t" using assms S by (simp add: t_def)
  have "t < 2 ^ 53"
  proof -
    have "x * subnormal_scale < 2 ^ 53 * 2 ^ k"
      using ulp_shift_upper [of x] assms by (simp add: k_def power_add)
    then show ?thesis by (simp add: t_def field_simps)
  qed
  then have "t \<le> of_int (2 ^ 53)" by simp
  then have m_hi: "m \<le> 2 ^ 53" unfolding m_def by (rule rne_le)
  have "of_int 0 \<le> t" using t0 by simp
  then have m0: "0 \<le> m" unfolding m_def by (rule rne_ge)
  have yS: "\<bar>y\<bar> * subnormal_scale = of_int m * 2 ^ k" using m0 S by (simp add: y_def abs_mult)
  have yk: "y * subnormal_scale / 2 ^ k = of_int m" using S by (simp add: y_def)
  show ?thesis
  proof (cases "m = 2 ^ 53")
    case True
    have "ulp_shift y = Suc k"
      by (rule ulp_shift_eq) (simp_all add: yS True power_add)
    moreover have "y * subnormal_scale / 2 ^ Suc k = of_int (2 ^ 52)"
      using S by (simp add: y_def True)
    ultimately have "round_fin y = of_int (2 ^ 52) * 2 ^ Suc k / subnormal_scale"
      unfolding round_fin_def by (simp only: rne_of_int)
    also have "\<dots> = y" by (simp add: y_def True)
    finally show ?thesis by (simp only: y)
  next
    case False
    with m_hi have m_lt: "m < 2 ^ 53" by simp
    have "ulp_shift y = k"
    proof (cases "k = 0")
      case True
      have "\<bar>y\<bar> * subnormal_scale < 2 ^ 53"
        using m_lt unfolding yS True by (simp add: of_int_less_numeral_power_cancel_iff)
      then show ?thesis using True by (simp add: ulp_shift_subnormal)
    next
      case False
      then have "0 < ulp_shift x" by (simp add: k_def)
      from ulp_shift_lower_pos [OF this] assms
      have "2 ^ 52 * 2 ^ k \<le> x * subnormal_scale" by (simp add: k_def power_add)
      then have "of_int (2 ^ 52) \<le> t" by (simp add: t_def field_simps)
      then have m_lo: "2 ^ 52 \<le> m" unfolding m_def by (rule rne_ge)
      show ?thesis
      proof (rule ulp_shift_eq)
        have "(2::real) ^ 52 \<le> of_int m" using m_lo by (simp add: numeral_power_le_of_int_cancel_iff)
        then have "(2::real) ^ 52 * 2 ^ k \<le> of_int m * 2 ^ k" by (intro mult_right_mono) simp_all
        then show "2 ^ (52 + k) \<le> \<bar>y\<bar> * subnormal_scale" by (simp add: yS power_add)
        have "of_int m < (2::real) ^ 53" using m_lt by (simp add: of_int_less_numeral_power_cancel_iff)
        then have "of_int m * 2 ^ k < (2::real) ^ 53 * 2 ^ k" by (intro mult_strict_right_mono) simp_all
        then show "\<bar>y\<bar> * subnormal_scale < 2 ^ (53 + k)" by (simp add: yS power_add)
      qed
    qed
    then have "round_fin y = of_int (rne (of_int m)) * 2 ^ k / subnormal_scale"
      unfolding round_fin_def by (simp only: yk)
    also have "\<dots> = y" by (simp add: rne_of_int y_def)
    finally show ?thesis by (simp only: y)
  qed
qed

lemma round_fin_fixed: "round_fin (round_fin x) = round_fin x"
proof (cases "0 \<le> x")
  case True
  then show ?thesis by (rule round_fin_nonneg_fixed)
next
  case False
  then have "0 \<le> - x" by simp
  from round_fin_nonneg_fixed [OF this] show ?thesis by (simp add: round_fin_minus)
qed

lemma rd_is_double: "is_double (rd x)"
  by (simp add: rd_def Let_def round_fin_fixed)

lemma is_double_fneg: "is_double x \<Longrightarrow> is_double (fneg x)"
proof (cases x)
  case (Fin a)
  assume "is_double x"
  with Fin have a: "rd a = Fin a" by simp
  then have r: "round_fin a = a" and b: "\<not> 2 ^ 1024 \<le> a" "\<not> a \<le> - (2 ^ 1024)"
    by (auto simp: rd_def Let_def split: if_splits)
  have "round_fin (- a) = - a" by (simp add: round_fin_minus r)
  then have "rd (- a) = Fin (- a)" using b by (simp add: rd_def)
  then show ?thesis using Fin by simp
qed simp_all

lemma is_double_fadd: "is_double (fadd x y)"
  by (cases x; cases y) (simp_all add: rd_is_double)

lemma is_double_fsub: "is_double (fsub x y)"
  by (simp add: fsub_def is_double_fadd)

lemma is_double_fmul: "is_double (fmul x y)"
  by (cases x; cases y) (simp_all add: rd_is_double)

lemma is_double_fdiv: "fdiv x y = Inr r \<Longrightarrow> is_double r"
  by (cases x; cases y) (auto simp: rd_is_double rd_zero split: if_splits)

lemma then_do_Inr: "then_do m k = Inr q \<Longrightarrow> \<exists>x. m = Inr x \<and> k x = Inr q"
  by (cases m) simp_all

lemma is_double_zero: "is_double (Fin 0)"
  by (simp add: rd_zero)

lemma convert_unit_is_double:
  assumes "is_double v" and "convert_unit v from_u to_u = (Inr r, shown)"
  shows "is_double r"
proof (cases "convert_try v from_u to_u")
  case (Inl e)
  then have "r = Fin 0" using assms(2) by (simp add: convert_unit_def)
  then show ?thesis using is_double_zero by simp
next
  case (Inr q)
  then have rq: "r = q" using assms(2) by (simp add: convert_unit_def)
  show ?thesis
  proof (cases "from_u \<in> set temperature_units \<and> to_u \<in> set temperature_units")
    case True
    then have "convert_try v from_u to_u = temperature_path v from_u to_u"
      unfolding convert_try_def by (rule if_P)
    then have "temperature_path v from_u to_u = Inr q" using Inr by simp
    then have "is_double q"
      using assms(1)
      by (auto simp: temperature_path_def is_double_fadd is_double_fsub
          dest!: then_do_Inr split: if_splits)
    then show ?thesis by (simp add: rq)
  next
    case False
    then have "convert_try v from_u to_u = linear_path v from_u to_u"
      unfolding convert_try_def by (rule if_not_P)
    then have "linear_path v from_u to_u = Inr q" using Inr by simp
    then have "is_double q"
      by (auto simp: linear_path_def Let_def dest!: then_do_Inr dest: is_double_fdiv)
    then show ?thesis by (simp add: rq)
  qed
qed

section \<open>The doubles of some literals and results\<close>

lemma rd_1: "rd 1 = Fin 1"
  using rd_eval [of 0 1 "2 ^ 52"] by simp

lemma rd_1000: "rd 1000 = Fin 1000"
  using rd_eval [of 9 1000 "1000 * 2 ^ 43"] by simp

lemma rd_27315: "rd 273.15 = Fin (2402652809016115 / 8796093022208)"
  using rd_eval [of 8 "273.15" 4805305618032230] by simp

lemma rd_01: "rd 0.1 = Fin (3602879701896397 / 36028797018963968)"
  using rd_eval [of "-4" "0.1" 7205759403792794] by simp

lemma kelvin_offset_value: "kelvin_offset = Fin (2402652809016115 / 8796093022208)"
  unfolding kelvin_offset_def by (rule rd_27315)

lemma rd_kelvin_offset: "rd (2402652809016115 / 8796093022208) = Fin (2402652809016115 / 8796093022208)"
  using rd_exact [of 8 "2402652809016115 / 8796093022208" 4805305618032230] by simp

lemma rd_32: "rd 32 = Fin 32"
  using rd_exact [of 5 32 "2 ^ 52"] by simp

lemma rd_100: "rd 100 = Fin 100"
  using rd_exact [of 6 100 "100 * 2 ^ 46"] by simp

lemma rd_900: "rd 900 = Fin 900"
  using rd_exact [of 9 900 "900 * 2 ^ 43"] by simp

lemma rd_180: "rd 180 = Fin 180"
  using rd_exact [of 7 180 "180 * 2 ^ 45"] by simp

lemma rd_212: "rd 212 = Fin 212"
  using rd_exact [of 7 212 "212 * 2 ^ 45"] by simp

lemma rd_37315: "rd (3282262111236915 / 8796093022208) = Fin (3282262111236915 / 8796093022208)"
  using rd_exact [of 8 "3282262111236915 / 8796093022208" 6564524222473830] by simp

lemma rd_tenth_plus_offset:
  "rd (3602879701896397 / 36028797018963968 + 2402652809016115 / 8796093022208) = Fin (1093 / 4)"
  using rd_eval [of 8 "3602879701896397 / 36028797018963968 + 2402652809016115 / 8796093022208"
      4807064836636672] by simp

lemma rd_drifted_tenth:
  "rd (1093 / 4 - 2402652809016115 / 8796093022208) = Fin (879609302221 / 8796093022208)"
  using rd_exact [of "- 4" "1093 / 4 - 2402652809016115 / 8796093022208" "879609302221 * 2 ^ 13"]
  by simp

lemma rd_foot: "rd 0.3048 = Fin (5490788665690109 / 18014398509481984)"
  using rd_eval [of "- 2" "0.3048" 5490788665690109] by simp

lemma rd_7: "rd 7 = Fin 7"
  using rd_exact [of 2 7 "7 * 2 ^ 50"] by simp

lemma rd_7_foot:
  "rd (7 * (5490788665690109 / 18014398509481984)) = Fin (4804440082478845 / 2251799813685248)"
  using rd_eval [of 1 "7 * (5490788665690109 / 18014398509481984)" 4804440082478845] by simp

lemma rd_7_foot_back:
  "rd (4804440082478845 / 2251799813685248 / (5490788665690109 / 18014398509481984)) =
     Fin (7881299347898367 / 1125899906842624)"
  using rd_eval [of 2 "4804440082478845 / 2251799813685248 / (5490788665690109 / 18014398509481984)"
      7881299347898367] by simp

lemma rd_overflow_example: "rd (2 ^ 1020 * 1000) = PInf"
proof -
  have k: "ulp_shift (2 ^ 1020 * 1000) = 2051"
    by (rule ulp_shift_eq) (simp_all add: subnormal_scale_def)
  have "round_fin (2 ^ 1020 * 1000) = 2 ^ 1020 * 1000"
    unfolding round_fin_def k by (simp add: subnormal_scale_def rne_numeral)
  then show ?thesis by (simp add: rd_def)
qed

lemma rd_2_1020: "rd (2 ^ 1020) = Fin (2 ^ 1020)"
  using rd_exact [of 1020 "2 ^ 1020" "2 ^ 52"] by simp

section \<open>Facts about the catalog\<close>

lemma factor_in_table:
  assumes "map_of CONVERSION_FACTORS u = Some d"
  shows "\<exists>f. d = Fin f \<and> 1 / 2 ^ 11 \<le> f \<and> f \<le> 2 ^ 41"
  using factor_table_range map_of_SomeD [OF assms] by fastforce

lemma no_temperature_factor:
  "map_of CONVERSION_FACTORS ''celsius'' = None"
  "map_of CONVERSION_FACTORS ''fahrenheit'' = None"
  "map_of CONVERSION_FACTORS ''kelvin'' = None"
  by (simp_all add: CONVERSION_FACTORS_def)

lemma factor_not_temperature:
  assumes "map_of CONVERSION_FACTORS u = Some d"
  shows "u \<notin> set temperature_units"
  using assms no_temperature_factor by (auto simp: temperature_units_def)

lemma fdiv_nonzero:
  assumes "b \<noteq> 0"
  shows "\<exists>r. fdiv x (Fin b) = Inr r"
  using assms by simp

lemma temp_unit_of_member: "temp_unit_of u = Some a \<Longrightarrow> u \<in> set temperature_units"
  by (auto simp: temp_unit_of_def temperature_units_def split: if_splits)

lemma temperature_units_member:
  "''celsius'' \<in> set temperature_units" "''fahrenheit'' \<in> set temperature_units"
  "''kelvin'' \<in> set temperature_units"
  by (simp_all add: temperature_units_def)

lemma factor_keys:
  "map fst CONVERSION_FACTORS = filter (\<lambda>u. u \<notin> set temperature_units) catalog_units"
  by (simp add: catalog_units_def CONVERSION_CATEGORIES_def temperature_units_def
      CONVERSION_FACTORS_def)

lemma catalog_unit_has_factor:
  assumes "u \<in> set catalog_units" and "u \<notin> set temperature_units"
  shows "map_of CONVERSION_FACTORS u \<noteq> None"
proof -
  have "u \<in> set (map fst CONVERSION_FACTORS)" using assms by (simp only: factor_keys) simp
  then show ?thesis by (simp add: map_of_eq_None_iff)
qed

lemma factor_positive:
  assumes "(u, d) \<in> set CONVERSION_FACTORS"
  shows "\<exists>f. d = Fin f \<and> 0 < f"
proof -
  obtain f where f: "d = Fin f" "1 / 2 ^ 11 \<le> f"
    using factor_table_range assms by fastforce
  have "(0::real) < 1 / 2 ^ 11" by simp
  with f show ?thesis by (intro exI [of _ f]) simp
qed

lemma category_unit_in_catalog:
  assumes "(c, us) \<in> set CONVERSION_CATEGORIES" and "u \<in> set us"
  shows "u \<in> set catalog_units"
  using assms by (force simp: catalog_units_def)

lemma factor_foot: "map_of CONVERSION_FACTORS ''foot'' = Some (rd 0.3048)"
  by (simp add: CONVERSION_FACTORS_def)

lemma factor_km: "factor ''kilometer'' = Inr (Fin 1000)"
  by (simp add: factor_def CONVERSION_FACTORS_def rd_1000)

lemma factor_m: "factor ''meter'' = Inr (Fin 1)"
  by (simp add: factor_def CONVERSION_FACTORS_def rd_1)

lemma linear_zero:
  assumes "map_of CONVERSION_FACTORS u = Some fa" and "map_of CONVERSION_FACTORS w = Some fb"
  shows "convert_unit (Fin 0) u w = (Inr (Fin 0), [])"
proof -
  obtain a where a: "fa = Fin a" using factor_in_table [OF assms(1)] by blast
  obtain b where b: "fb = Fin b" "1 / 2 ^ 11 \<le> b" using factor_in_table [OF assms(2)] by blast
  have "(0::real) < 1 / 2 ^ 11" by simp
  with b have nz: "b \<noteq> 0" by linarith
  have "convert_try (Fin 0) u w = linear_path (Fin 0) u w"
    using factor_not_temperature [OF assms(1)] by (simp add: convert_try_def)
  also have "\<dots> = Inr (Fin 0)"
    using assms a b(1) nz by (simp add: linear_path_def factor_def rd_zero)
  finally show ?thesis by (simp add: convert_unit_def)
qed

text \<open>One conversion between two table units, away from overflow and underflow.\<close>

lemma linear_step:
  assumes fa: "map_of CONVERSION_FACTORS u = Some fa" and fb: "map_of CONVERSION_FACTORS w = Some fb"
    and lo: "1 / 2 ^ 960 \<le> \<bar>x\<bar>" and hi: "\<bar>x\<bar> \<le> 2 ^ 960"
  shows "\<exists>a b d1 d2. fa = Fin a \<and> fb = Fin b \<and> 0 < a \<and> 0 < b \<and>
           convert_unit (Fin x) u w = (Inr (Fin (x * a / b * ((1 + d1) * (1 + d2)))), []) \<and>
           \<bar>d1\<bar> \<le> 1 / 2 ^ 53 \<and> \<bar>d2\<bar> \<le> 1 / 2 ^ 53 \<and>
           \<bar>x\<bar> / 2 ^ 54 \<le> \<bar>x * a / b * ((1 + d1) * (1 + d2))\<bar> \<and>
           \<bar>x * a / b * ((1 + d1) * (1 + d2))\<bar> \<le> \<bar>x\<bar> * 2 ^ 54"
proof -
  obtain a where a: "fa = Fin a" "1 / 2 ^ 11 \<le> a" "a \<le> 2 ^ 41"
    using factor_in_table [OF fa] by blast
  obtain b where b: "fb = Fin b" "1 / 2 ^ 11 \<le> b" "b \<le> 2 ^ 41"
    using factor_in_table [OF fb] by blast
  have pos: "0 < a" "0 < b"
  proof -
    have "(0::real) < 1 / 2 ^ 11" by simp
    then show "0 < a" "0 < b" using a b by linarith+
  qed
  \<comment> \<open>the product\<close>
  have p_lo: "1 / 2 ^ 971 \<le> \<bar>x * a\<bar>"
  proof -
    have "(1::real) / 2 ^ 971 = 1 / 2 ^ 960 * (1 / 2 ^ 11)" by simp
    also have "\<dots> \<le> \<bar>x\<bar> * a" using lo a by (intro mult_mono) simp_all
    finally show ?thesis using pos by (simp add: abs_mult)
  qed
  have p_hi: "\<bar>x * a\<bar> \<le> 2 ^ 1001"
  proof -
    have "\<bar>x\<bar> * a \<le> 2 ^ 960 * 2 ^ 41" using hi a pos by (intro mult_mono) simp_all
    then show ?thesis using pos by (simp add: abs_mult)
  qed
  have "(1::real) / 2 ^ 1022 \<le> 1 / 2 ^ 971" and "(2::real) ^ 1001 \<le> 2 ^ 1023" by simp_all
  with p_lo p_hi have "1 / 2 ^ 1022 \<le> \<bar>x * a\<bar>" and "\<bar>x * a\<bar> \<le> 2 ^ 1023" by linarith+
  from rd_rel_error [OF this] obtain d1 where
    d1: "rd (x * a) = Fin (x * a * (1 + d1))" "\<bar>d1\<bar> \<le> 1 / 2 ^ 53" by blast
  define t where "t = x * a * (1 + d1)"
  have t_lo: "1 / 2 ^ 972 \<le> \<bar>t\<bar>" and t_hi: "\<bar>t\<bar> \<le> 2 ^ 1002"
    using rel_error_size [OF d1(2), of "x * a"] p_lo p_hi by (simp_all add: t_def)
  \<comment> \<open>the quotient\<close>
  have q_lo: "1 / 2 ^ 1013 \<le> \<bar>t / b\<bar>"
  proof -
    have "(1::real) / 2 ^ 1013 = 1 / 2 ^ 972 / 2 ^ 41" by simp
    also have "\<dots> \<le> \<bar>t\<bar> / 2 ^ 41" using t_lo by (intro divide_right_mono) simp_all
    also have "\<dots> \<le> \<bar>t\<bar> / b" using b pos by (intro divide_left_mono) simp_all
    finally show ?thesis using pos by simp
  qed
  have q_hi: "\<bar>t / b\<bar> \<le> 2 ^ 1013"
  proof -
    have "\<bar>t\<bar> / b \<le> \<bar>t\<bar> / (1 / 2 ^ 11)" using b pos by (intro divide_left_mono) simp_all
    also have "\<dots> = \<bar>t\<bar> * 2 ^ 11" by simp
    also have "\<dots> \<le> 2 ^ 1002 * 2 ^ 11" using t_hi by (intro mult_right_mono) simp_all
    finally show ?thesis using pos by simp
  qed
  have "(1::real) / 2 ^ 1022 \<le> 1 / 2 ^ 1013" and "(2::real) ^ 1013 \<le> 2 ^ 1023" by simp_all
  with q_lo q_hi have "1 / 2 ^ 1022 \<le> \<bar>t / b\<bar>" and "\<bar>t / b\<bar> \<le> 2 ^ 1023" by linarith+
  from rd_rel_error [OF this] obtain d2 where
    d2: "rd (t / b) = Fin (t / b * (1 + d2))" "\<bar>d2\<bar> \<le> 1 / 2 ^ 53" by blast
  have y: "t / b * (1 + d2) = x * a / b * ((1 + d1) * (1 + d2))"
    unfolding t_def by (simp only: times_divide_eq_left mult.assoc)
  have "from_u \<notin> set temperature_units" if "map_of CONVERSION_FACTORS from_u = Some f" for from_u f
    by (rule factor_not_temperature [OF that])
  then have "convert_try (Fin x) u w = linear_path (Fin x) u w"
    using fa by (simp add: convert_try_def)
  also have "\<dots> = Inr (Fin (t / b * (1 + d2)))"
    using fa fb a(1) b(1) pos d1(1) d2(1) by (simp add: linear_path_def factor_def t_def)
  finally have "convert_try (Fin x) u w = Inr (Fin (x * a / b * ((1 + d1) * (1 + d2))))"
    by (simp only: y)
  then have c: "convert_unit (Fin x) u w = (Inr (Fin (x * a / b * ((1 + d1) * (1 + d2)))), [])"
    by (simp add: convert_unit_def)
  \<comment> \<open>the size of the result\<close>
  have s: "\<bar>t / b\<bar> / 2 \<le> \<bar>t / b * (1 + d2)\<bar>" "\<bar>t / b * (1 + d2)\<bar> \<le> 2 * \<bar>t / b\<bar>"
    using rel_error_size [OF d2(2), of "t / b"] by simp_all
  have ts: "\<bar>x * a\<bar> / 2 \<le> \<bar>t\<bar>" "\<bar>t\<bar> \<le> 2 * \<bar>x * a\<bar>"
    using rel_error_size [OF d1(2), of "x * a"] by (simp_all add: t_def)
  have r_lo: "\<bar>x\<bar> / 2 ^ 54 \<le> \<bar>t / b * (1 + d2)\<bar>"
  proof -
    have "\<bar>x\<bar> / 2 ^ 54 = \<bar>x\<bar> * (1 / 2 ^ 11) / 2 / 2 ^ 41 / 2" by simp
    also have "\<dots> \<le> \<bar>x\<bar> * a / 2 / 2 ^ 41 / 2"
      using a by (intro divide_right_mono mult_left_mono) simp_all
    also have "\<dots> \<le> \<bar>t\<bar> / 2 ^ 41 / 2"
      using ts(1) pos by (intro divide_right_mono) (simp_all add: abs_mult)
    also have "\<dots> \<le> \<bar>t\<bar> / b / 2"
      using b pos by (intro divide_right_mono divide_left_mono) simp_all
    also have "\<dots> \<le> \<bar>t / b * (1 + d2)\<bar>" using s(1) pos by simp
    finally show ?thesis .
  qed
  have r_hi: "\<bar>t / b * (1 + d2)\<bar> \<le> \<bar>x\<bar> * 2 ^ 54"
  proof -
    have "\<bar>t / b * (1 + d2)\<bar> \<le> 2 * (\<bar>t\<bar> / b)" using s(2) pos by simp
    also have "\<dots> \<le> 2 * (\<bar>t\<bar> / (1 / 2 ^ 11))"
      using b pos by (intro mult_left_mono divide_left_mono) simp_all
    also have "\<dots> = \<bar>t\<bar> * 2 ^ 12" by simp
    also have "\<dots> \<le> (2 * (\<bar>x\<bar> * a)) * 2 ^ 12"
      using ts(2) pos by (intro mult_right_mono) (simp_all add: abs_mult)
    also have "\<dots> \<le> (2 * (\<bar>x\<bar> * 2 ^ 41)) * 2 ^ 12"
      using a by (intro mult_right_mono mult_left_mono) simp_all
    also have "\<dots> = \<bar>x\<bar> * 2 ^ 54" by simp
    finally show ?thesis .
  qed
  show ?thesis
    using a(1) b(1) pos c d1(2) d2(2) r_lo r_hi unfolding y by blast
qed

text \<open>Two units of one category always convert.\<close>

lemma category_all_or_no_temperature:
  "\<forall>(c, us) \<in> set CONVERSION_CATEGORIES.
     set us \<subseteq> set temperature_units \<or> (\<forall>u \<in> set us. u \<notin> set temperature_units)"
  by (simp add: CONVERSION_CATEGORIES_def temperature_units_def)

lemma temperature_path_returns: "\<exists>q. temperature_path v f t = Inr q"
  by (simp add: temperature_path_def)

lemma linear_path_returns:
  assumes "map_of CONVERSION_FACTORS u = Some fa" and "map_of CONVERSION_FACTORS w = Some fb"
  shows "\<exists>q. linear_path v u w = Inr q"
proof -
  obtain b where b: "fb = Fin b" "1 / 2 ^ 11 \<le> b"
    using factor_in_table [OF assms(2)] by blast
  have "(0::real) < 1 / 2 ^ 11" by simp
  with b have "b \<noteq> 0" by linarith
  then obtain q where "fdiv (fmul v fa) (Fin b) = Inr q" using fdiv_nonzero by blast
  then show ?thesis using assms b(1) by (simp add: linear_path_def factor_def)
qed

lemma same_category_converts:
  assumes "(c, us) \<in> set CONVERSION_CATEGORIES" and "u \<in> set us" and "w \<in> set us"
  shows "\<exists>q. convert_try v u w = Inr q"
proof (cases "u \<in> set temperature_units")
  case True
  then have "set us \<subseteq> set temperature_units"
    using category_all_or_no_temperature assms(1,2) by fastforce
  then have "u \<in> set temperature_units \<and> w \<in> set temperature_units" using assms(2,3) by blast
  then have "convert_try v u w = temperature_path v u w"
    unfolding convert_try_def by (rule if_P)
  then show ?thesis using temperature_path_returns by simp
next
  case False
  then have n: "\<forall>x \<in> set us. x \<notin> set temperature_units"
    using category_all_or_no_temperature assms(1,2) by fastforce
  then have w: "w \<notin> set temperature_units" using assms(3) by blast
  obtain fa where fa: "map_of CONVERSION_FACTORS u = Some fa"
    using catalog_unit_has_factor [OF category_unit_in_catalog [OF assms(1,2)] False] by blast
  obtain fb where fb: "map_of CONVERSION_FACTORS w = Some fb"
    using catalog_unit_has_factor [OF category_unit_in_catalog [OF assms(1,3)] w] by blast
  have "\<not> (u \<in> set temperature_units \<and> w \<in> set temperature_units)" using False by simp
  then have "convert_try v u w = linear_path v u w"
    unfolding convert_try_def by (rule if_not_P)
  then show ?thesis using linear_path_returns [OF fa fb] by simp
qed

section \<open>Facts about the history\<close>

lemma convert_unit_returns: "\<exists>r shown. convert_unit v f t = (Inr r, shown)"
  by (simp add: convert_unit_def split: sum.split)

lemma update_result_history:
  "conversion_history (fst (update_result (at_time q) (enter q s))) =
     keep_last_10 (conversion_history s @ [record_of q])"
proof -
  obtain r shown where c: "convert_unit (entered q) (source_unit q) (target_unit q) = (Inr r, shown)"
    using convert_unit_returns by blast
  then show ?thesis
    by (simp add: update_result_def enter_def record_of_def returned_value_def Let_def)
qed

lemma keep_last_10_drop: "keep_last_10 h = drop (length h - 10) h"
  by (simp add: keep_last_10_def)

lemma keep_last_10_append:
  "keep_last_10 (keep_last_10 a @ b) = keep_last_10 (a @ b)"
proof (cases "length a \<le> 10")
  case True
  then show ?thesis by (simp add: keep_last_10_def)
next
  case False
  then have a: "keep_last_10 a = drop (length a - 10) a" and l: "10 < length a"
    by (simp_all add: keep_last_10_def)
  have "keep_last_10 (keep_last_10 a @ b) = drop (length b) (drop (length a - 10) a @ b)"
    using l by (simp add: a keep_last_10_drop)
  also have "\<dots> = drop (length a + length b - 10) a @ drop (length b - 10) b"
    using l by (simp add: add.commute)
  also have "\<dots> = keep_last_10 (a @ b)"
    using l by (simp add: keep_last_10_drop)
  finally show ?thesis .
qed

lemma run_updates_history:
  "conversion_history (run_updates qs s) =
     (if qs = [] then conversion_history s
      else keep_last_10 (conversion_history s @ map record_of qs))"
proof (induction qs arbitrary: s)
  case Nil
  then show ?case by simp
next
  case (Cons q qs)
  let ?s = "fst (update_result (at_time q) (enter q s))"
  show ?case
  proof (cases "qs = []")
    case True
    then show ?thesis by (simp add: update_result_history)
  next
    case False
    then have "conversion_history (run_updates (q # qs) s) =
        keep_last_10 (keep_last_10 (conversion_history s @ [record_of q]) @ map record_of qs)"
      using Cons.IH [of ?s] by (simp add: update_result_history)
    also have "\<dots> = keep_last_10 (conversion_history s @ record_of q # map record_of qs)"
      by (simp add: keep_last_10_append)
    finally show ?thesis by simp
  qed
qed

section \<open>The claims\<close>

subsection \<open>C1: the linear conversion law\<close>

text \<open>
  C1. When both units have an entry in the factor table, \<^verbatim>\<open>convert_unit\<close> returns
  \<^verbatim>\<open>value * factor(from) / factor(to)\<close>: the float product of the value and the source
  factor, divided (in floats) by the target factor. The division raises nothing and
  nothing is reported.
\<close>

theorem linear_conversion_formula:
  assumes "map_of CONVERSION_FACTORS from_u = Some f_from"
    and "map_of CONVERSION_FACTORS to_u = Some f_to"
  shows "\<exists>r. fdiv (fmul v f_from) f_to = Inr r \<and>
             convert_unit v from_u to_u = (Inr r, [])"
proof -
  obtain b where b: "f_to = Fin b" "1 / 2 ^ 11 \<le> b"
    using factor_in_table [OF assms(2)] by blast
  have "(0::real) < 1 / 2 ^ 11" by simp
  with b have "b \<noteq> 0" by linarith
  then obtain r where r: "fdiv (fmul v f_from) f_to = Inr r"
    using fdiv_nonzero b(1) by blast
  have "from_u \<notin> set temperature_units"
    by (rule factor_not_temperature [OF assms(1)])
  then have "convert_try v from_u to_u = linear_path v from_u to_u"
    by (simp add: convert_try_def)
  then have "convert_try v from_u to_u = Inr r"
    using assms r by (simp add: linear_path_def factor_def)
  then show ?thesis using r by (simp add: convert_unit_def)
qed

theorem linear_conversion_formula_witness:
  "map_of CONVERSION_FACTORS ''mile'' = Some (rd 1609.344) \<and>
   map_of CONVERSION_FACTORS ''kilometer'' = Some (rd 1000.0) \<and>
   (\<exists>r. fdiv (fmul (Fin 26) (rd 1609.344)) (rd 1000.0) = Inr r \<and>
        convert_unit (Fin 26) ''mile'' ''kilometer'' = (Inr r, []))"
proof -
  have a: "map_of CONVERSION_FACTORS ''mile'' = Some (rd 1609.344)"
    by (simp add: CONVERSION_FACTORS_def)
  have b: "map_of CONVERSION_FACTORS ''kilometer'' = Some (rd 1000.0)"
    by (simp add: CONVERSION_FACTORS_def)
  show ?thesis
    using a b linear_conversion_formula [OF a b, of "Fin 26"] by blast
qed

subsection \<open>C2: the temperature path\<close>

text \<open>
  C2. For two units among celsius, fahrenheit and kelvin, \<^verbatim>\<open>convert_unit\<close> returns the
  denormalisation from kelvin of the normalisation to kelvin, as the specification
  states the two steps, and reports nothing.
\<close>

theorem temperature_conversion_composes:
  assumes "temp_unit_of from_u = Some a" and "temp_unit_of to_u = Some b"
  shows "convert_unit v from_u to_u =
           (Inr (denormalize_from_kelvin b (normalize_to_kelvin a v)), [])"
proof -
  have "convert_try v from_u to_u = temperature_path v from_u to_u"
    using assms [THEN temp_unit_of_member] by (simp add: convert_try_def)
  moreover have "temperature_path v from_u to_u =
      Inr (denormalize_from_kelvin b (normalize_to_kelvin a v))"
    using assms
    by (cases a; cases b)
      (auto simp: temp_unit_of_def temperature_path_def div_const_def split: if_splits)
  ultimately show ?thesis by (simp add: convert_unit_def)
qed

theorem temperature_conversion_composes_witness:
  "temp_unit_of ''fahrenheit'' = Some Fahrenheit \<and> temp_unit_of ''celsius'' = Some Celsius \<and>
   convert_unit (Fin 451) ''fahrenheit'' ''celsius'' =
     (Inr (fsub (fadd (div_const (fmul (fsub (Fin 451) (Fin 32)) (Fin 5)) 9) kelvin_offset)
        kelvin_offset), [])"
proof -
  have a: "temp_unit_of ''fahrenheit'' = Some Fahrenheit" by (simp add: temp_unit_of_def)
  have b: "temp_unit_of ''celsius'' = Some Celsius" by (simp add: temp_unit_of_def)
  show ?thesis
    using a b temperature_conversion_composes [OF a b, of "Fin 451"] by simp
qed

subsection \<open>C3: a failed lookup\<close>

text \<open>
  C3 as stated does not hold: for the unknown unit \<^verbatim>\<open>furlong\<close> the caller of
  \<^verbatim>\<open>convert_unit\<close> receives the float \<^verbatim>\<open>0.0\<close>, not a \<^verbatim>\<open>KeyError\<close>.
\<close>

theorem unknown_unit_returns_default:
  "fst (convert_unit (Fin 1) ''furlong'' ''meter'') = Inr (Fin 0) \<and>
   fst (convert_unit (Fin 1) ''furlong'' ''meter'') \<noteq> Inl (KeyError ''furlong'')"
  by (simp add: convert_unit_def convert_try_def linear_path_def factor_def
      temperature_units_def CONVERSION_FACTORS_def)

text \<open>
  C3, amended. When the factor path is taken and a lookup misses, \<^verbatim>\<open>convert_unit\<close>
  catches the \<^verbatim>\<open>KeyError\<close> of the first missing unit, shows it as a conversion error
  and returns \<^verbatim>\<open>0.0\<close> to its caller.
\<close>

theorem failed_lookup_returns_zero:
  assumes "\<not> (from_u \<in> set temperature_units \<and> to_u \<in> set temperature_units)"
    and "map_of CONVERSION_FACTORS from_u = None \<or> map_of CONVERSION_FACTORS to_u = None"
  shows "convert_unit v from_u to_u =
           (Inr (Fin 0), [ConversionError (KeyError
              (if map_of CONVERSION_FACTORS from_u = None then from_u else to_u))])"
  using assms
  by (auto simp: convert_unit_def convert_try_def linear_path_def factor_def Let_def
      split: option.splits)

theorem failed_lookup_returns_zero_witness:
  "\<not> (''meter'' \<in> set temperature_units \<and> ''parsec'' \<in> set temperature_units) \<and>
   (map_of CONVERSION_FACTORS ''meter'' = None \<or> map_of CONVERSION_FACTORS ''parsec'' = None) \<and>
   convert_unit (Fin 3) ''meter'' ''parsec'' =
     (Inr (Fin 0), [ConversionError (KeyError ''parsec'')])"
proof -
  have a: "\<not> (''meter'' \<in> set temperature_units \<and> ''parsec'' \<in> set temperature_units)"
    by (simp add: temperature_units_def)
  have b: "map_of CONVERSION_FACTORS ''meter'' = None \<or> map_of CONVERSION_FACTORS ''parsec'' = None"
    by (simp add: CONVERSION_FACTORS_def)
  have c: "map_of CONVERSION_FACTORS ''meter'' \<noteq> None"
    by (simp add: CONVERSION_FACTORS_def)
  show ?thesis
    using a b c failed_lookup_returns_zero [OF a b, of "Fin 3"] by simp
qed

subsection \<open>C4: a unit converted to itself\<close>

lemma celsius_tenth_drifts:
  "convert_unit (rd 0.1) ''celsius'' ''celsius'' =
     (Inr (Fin (879609302221 / 8796093022208)), []) \<and>
   \<not> feq (Fin (879609302221 / 8796093022208)) (rd 0.1)"
proof -
  have "convert_unit (Fin (3602879701896397 / 36028797018963968)) ''celsius'' ''celsius'' =
     (Inr (Fin (879609302221 / 8796093022208)), [])"
    using rd_drifted_tenth [simplified] rd_tenth_plus_offset [simplified]
    by (simp add: convert_unit_def convert_try_def temperature_units_member temperature_path_def
        kelvin_offset_value fsub_def)
  then show ?thesis by (simp only: rd_01) (simp add: feq_def)
qed

lemma seven_foot_drifts:
  "convert_unit (Fin 7) ''foot'' ''foot'' = (Inr (Fin (7881299347898367 / 1125899906842624)), []) \<and>
   \<not> feq (Fin (7881299347898367 / 1125899906842624)) (Fin 7)"
proof -
  have f: "factor ''foot'' = Inr (Fin (5490788665690109 / 18014398509481984))"
    unfolding factor_def factor_foot by (simp only: rd_foot) simp
  have "convert_unit (Fin 7) ''foot'' ''foot'' = (Inr (Fin (7881299347898367 / 1125899906842624)), [])"
    using rd_7_foot [simplified] rd_7_foot_back [simplified]
    by (simp add: convert_unit_def convert_try_def temperature_units_def linear_path_def f)
  then show ?thesis by (simp add: feq_def)
qed

text \<open>
  C4 as stated does not hold. \<^verbatim>\<open>convert_unit(0.1, "celsius", "celsius")\<close> is
  \<^verbatim>\<open>(0.1 + 273.15) - 273.15\<close>, the double \<^verbatim>\<open>0.10000000000002274\<close>, and
  \<^verbatim>\<open>convert_unit(7.0, "foot", "foot")\<close> is \<^verbatim>\<open>7.0 * 0.3048 / 0.3048\<close>, the double
  \<^verbatim>\<open>6.999999999999999\<close>; neither is \<^verbatim>\<open>==\<close> to the value converted.
\<close>

theorem same_unit_not_exact:
  "convert_unit (rd 0.1) ''celsius'' ''celsius'' =
     (Inr (Fin (879609302221 / 8796093022208)), []) \<and>
   \<not> feq (Fin (879609302221 / 8796093022208)) (rd 0.1) \<and>
   convert_unit (Fin 7) ''foot'' ''foot'' = (Inr (Fin (7881299347898367 / 1125899906842624)), []) \<and>
   \<not> feq (Fin (7881299347898367 / 1125899906842624)) (Fin 7)"
  using celsius_tenth_drifts seven_foot_drifts by blast

text \<open>
  C4, amended. For kelvin, and for every unit whose factor is \<^verbatim>\<open>1.0\<close>, \<^verbatim>\<open>convert_unit\<close>
  returns the float it was given, so the result is \<^verbatim>\<open>==\<close> to it unless it is NaN. For
  every unit \<open>w\<close> of the factor table and every real \<open>t\<close> with
  \<open>1 / 2 ^ 960 \<le> \<bar>t\<bar> \<le> 2 ^ 960\<close> the result is \<open>t\<close> up to the two roundings of
  \<^verbatim>\<open>t * f / f\<close>: it differs from \<open>t\<close> by at most \<open>\<bar>t\<bar> / 2 ^ 51\<close>.
\<close>

theorem same_unit_conversion:
  "convert_unit x ''kelvin'' ''kelvin'' = (Inr x, []) \<and>
   (map_of CONVERSION_FACTORS u = Some (Fin 1) \<and> is_double x \<longrightarrow>
      convert_unit x u u = (Inr x, [])) \<and>
   (x \<noteq> NaN \<longrightarrow> feq x x) \<and>
   (map_of CONVERSION_FACTORS w = Some f \<and> 1 / 2 ^ 960 \<le> \<bar>t\<bar> \<and> \<bar>t\<bar> \<le> 2 ^ 960 \<longrightarrow>
      (\<exists>y. convert_unit (Fin t) w w = (Inr (Fin y), []) \<and> \<bar>y - t\<bar> \<le> \<bar>t\<bar> / 2 ^ 51))"
proof -
  have k: "convert_unit x ''kelvin'' ''kelvin'' = (Inr x, [])"
    by (simp add: convert_unit_def convert_try_def temperature_units_member temperature_path_def)
  have b: "convert_unit x u u = (Inr x, [])"
    if u: "map_of CONVERSION_FACTORS u = Some (Fin 1)" and x: "is_double x"
  proof -
    have "convert_try x u u = linear_path x u u"
      using factor_not_temperature [OF u] by (simp add: convert_try_def)
    also have "\<dots> = Inr x"
      using u x by (cases x) (simp_all add: linear_path_def factor_def)
    finally show ?thesis by (simp add: convert_unit_def)
  qed
  have e: "feq x x" if "x \<noteq> NaN" using that by (simp add: feq_def)
  have l: "\<exists>y. convert_unit (Fin t) w w = (Inr (Fin y), []) \<and> \<bar>y - t\<bar> \<le> \<bar>t\<bar> / 2 ^ 51"
    if w: "map_of CONVERSION_FACTORS w = Some f" and lo: "1 / 2 ^ 960 \<le> \<bar>t\<bar>" and hi: "\<bar>t\<bar> \<le> 2 ^ 960"
  proof -
    from linear_step [OF w w lo hi] obtain a b d1 d2 where
      s: "f = Fin a" "f = Fin b" "0 < a"
        "convert_unit (Fin t) w w = (Inr (Fin (t * a / b * ((1 + d1) * (1 + d2)))), [])"
        "\<bar>d1\<bar> \<le> 1 / 2 ^ 53" "\<bar>d2\<bar> \<le> 1 / 2 ^ 53"
      by blast
    have ab: "b = a" using s(1,2) by simp
    define y where "y = t * ((1 + d1) * (1 + d2))"
    have c: "convert_unit (Fin t) w w = (Inr (Fin y), [])"
      using s(4) s(3) by (simp add: ab y_def)
    have "\<bar>y - t\<bar> \<le> \<bar>t\<bar> * (1 / 2 ^ 51)"
      unfolding y_def by (rule scaled_error [OF two_roundings [OF s(5,6)]])
    then show ?thesis using c by (intro exI [of _ y]) simp
  qed
  show ?thesis using k b e l by blast
qed

theorem same_unit_conversion_witness:
  "map_of CONVERSION_FACTORS ''liter'' = Some (Fin 1) \<and> is_double (Fin 7) \<and>
   convert_unit (Fin 7) ''liter'' ''liter'' = (Inr (Fin 7), []) \<and> feq (Fin 7) (Fin 7) \<and>
   map_of CONVERSION_FACTORS ''foot'' = Some (rd 0.3048) \<and>
   1 / 2 ^ 960 \<le> \<bar>7::real\<bar> \<and> \<bar>7::real\<bar> \<le> 2 ^ 960 \<and>
   (\<exists>y. convert_unit (Fin 7) ''foot'' ''foot'' = (Inr (Fin y), []) \<and> \<bar>y - 7\<bar> \<le> 7 / 2 ^ 51)"
proof -
  have a: "map_of CONVERSION_FACTORS ''liter'' = Some (Fin 1)"
    by (simp add: CONVERSION_FACTORS_def rd_1)
  have b: "is_double (Fin 7)" by (simp add: rd_7)
  have c: "map_of CONVERSION_FACTORS ''foot'' = Some (rd 0.3048)"
    by (simp add: CONVERSION_FACTORS_def)
  have d: "1 / 2 ^ 960 \<le> \<bar>7::real\<bar>" "\<bar>7::real\<bar> \<le> 2 ^ 960" by simp_all
  have n: "Fin 7 \<noteq> NaN" by simp
  show ?thesis
    using a b c d n same_unit_conversion [of "Fin 7" "''liter''" "''foot''" "rd 0.3048" 7]
    by simp
qed

subsection \<open>C5: the round trip\<close>

text \<open>
  C5 as stated does not hold for every value. \<open>2 ^ 1020\<close> is a double; converted from
  kilometer to meter it overflows to infinity, and the way back keeps infinity, which
  is within no tolerance of \<open>2 ^ 1020\<close>.
\<close>

theorem round_trip_overflows:
  "rd (2 ^ 1020) = Fin (2 ^ 1020) \<and>
   convert_unit (Fin (2 ^ 1020)) ''kilometer'' ''meter'' = (Inr PInf, []) \<and>
   convert_unit PInf ''meter'' ''kilometer'' = (Inr PInf, []) \<and>
   \<not> close_to (1 / 10 ^ 9) PInf (2 ^ 1020)"
  using rd_overflow_example [simplified] rd_2_1020 [simplified]
  by (simp add: convert_unit_def convert_try_def temperature_units_def linear_path_def
      factor_km factor_m close_to_def)

text \<open>
  C5, amended. For two units \<open>u\<close> and \<open>w\<close> of one category, neither a temperature
  unit, and every real \<open>x\<close> that is zero or has \<open>1 / 2 ^ 900 \<le> \<bar>x\<bar> \<le> 2 ^ 900\<close>, both
  conversions return finite floats, and the result of the round trip differs from
  \<open>x\<close> by at most \<open>\<bar>x\<bar> / 10 ^ 9\<close>.
\<close>

theorem round_trip_within_tolerance:
  assumes "(c, us) \<in> set CONVERSION_CATEGORIES" and "u \<in> set us" and "w \<in> set us"
    and "u \<notin> set temperature_units" and "w \<notin> set temperature_units"
    and "x = 0 \<or> (1 / 2 ^ 900 \<le> \<bar>x\<bar> \<and> \<bar>x\<bar> \<le> 2 ^ 900)"
  shows "\<exists>r1 r2. convert_unit (Fin x) u w = (Inr r1, []) \<and>
               convert_unit r1 w u = (Inr r2, []) \<and>
               close_to (1 / 10 ^ 9) r2 x"
proof -
  obtain fa where fa: "map_of CONVERSION_FACTORS u = Some fa"
    using catalog_unit_has_factor [OF category_unit_in_catalog [OF assms(1,2)] assms(4)] by blast
  obtain fb where fb: "map_of CONVERSION_FACTORS w = Some fb"
    using catalog_unit_has_factor [OF category_unit_in_catalog [OF assms(1,3)] assms(5)] by blast
  show ?thesis
  proof (cases "x = 0")
    case True
    then show ?thesis
      using linear_zero [OF fa fb] linear_zero [OF fb fa] by (auto simp: close_to_def)
  next
    case False
    with assms(6) have lo: "1 / 2 ^ 900 \<le> \<bar>x\<bar>" and hi: "\<bar>x\<bar> \<le> 2 ^ 900" by auto
    have "(1::real) / 2 ^ 960 \<le> 1 / 2 ^ 900" and "(2::real) ^ 900 \<le> 2 ^ 960" by simp_all
    with lo hi have "1 / 2 ^ 960 \<le> \<bar>x\<bar>" and "\<bar>x\<bar> \<le> 2 ^ 960" by linarith+
    from linear_step [OF fa fb this] obtain a b d1 d2 where
      s1: "fa = Fin a" "fb = Fin b" "0 < a" "0 < b"
        "convert_unit (Fin x) u w = (Inr (Fin (x * a / b * ((1 + d1) * (1 + d2)))), [])"
        "\<bar>d1\<bar> \<le> 1 / 2 ^ 53" "\<bar>d2\<bar> \<le> 1 / 2 ^ 53"
        "\<bar>x\<bar> / 2 ^ 54 \<le> \<bar>x * a / b * ((1 + d1) * (1 + d2))\<bar>"
        "\<bar>x * a / b * ((1 + d1) * (1 + d2))\<bar> \<le> \<bar>x\<bar> * 2 ^ 54"
      by blast
    define y where "y = x * a / b * ((1 + d1) * (1 + d2))"
    have "(1::real) / 2 ^ 960 \<le> 1 / 2 ^ 900 / 2 ^ 54" by simp
    also have "\<dots> \<le> \<bar>x\<bar> / 2 ^ 54" using lo by (intro divide_right_mono) simp_all
    finally have "1 / 2 ^ 960 \<le> \<bar>x\<bar> / 2 ^ 54" .
    with s1(8) have ylo: "1 / 2 ^ 960 \<le> \<bar>y\<bar>" unfolding y_def by linarith
    have "\<bar>x\<bar> * 2 ^ 54 \<le> 2 ^ 900 * 2 ^ 54" using hi by (intro mult_right_mono) simp_all
    also have "\<dots> \<le> (2::real) ^ 960" by simp
    finally have "\<bar>x\<bar> * 2 ^ 54 \<le> 2 ^ 960" .
    with s1(9) have yhi: "\<bar>y\<bar> \<le> 2 ^ 960" unfolding y_def by linarith
    from linear_step [OF fb fa ylo yhi] obtain b' a' d3 d4 where
      s2: "fb = Fin b'" "fa = Fin a'"
        "convert_unit (Fin y) w u = (Inr (Fin (y * b' / a' * ((1 + d3) * (1 + d4)))), [])"
        "\<bar>d3\<bar> \<le> 1 / 2 ^ 53" "\<bar>d4\<bar> \<le> 1 / 2 ^ 53"
      by blast
    have eq: "a' = a" "b' = b" using s1(1,2) s2(1,2) by simp_all
    define z where "z = y * b / a * ((1 + d3) * (1 + d4))"
    have z: "z = x * (((1 + d1) * (1 + d2)) * ((1 + d3) * (1 + d4)))"
      using s1(3,4) by (simp add: z_def y_def)
    have "\<bar>z - x\<bar> \<le> \<bar>x\<bar> * (1 / 10 ^ 9)"
      unfolding z by (rule scaled_error [OF four_roundings [OF s1(6,7) s2(4,5)]])
    then have "\<bar>z - x\<bar> \<le> \<bar>x\<bar> / 10 ^ 9" by simp
    moreover have "convert_unit (Fin x) u w = (Inr (Fin y), [])" using s1(5) by (simp only: y_def)
    moreover have "convert_unit (Fin y) w u = (Inr (Fin z), [])" using s2(3) by (simp only: z_def eq)
    ultimately show ?thesis by (auto simp: close_to_def)
  qed
qed

theorem round_trip_within_tolerance_witness:
  "(''Length'', [''meter'', ''kilometer'', ''centimeter'', ''millimeter'', ''mile'', ''yard'',
       ''foot'', ''inch'']) \<in> set CONVERSION_CATEGORIES \<and>
   ''mile'' \<notin> set temperature_units \<and> ''kilometer'' \<notin> set temperature_units \<and>
   ((26::real) = 0 \<or> (1 / 2 ^ 900 \<le> \<bar>26::real\<bar> \<and> \<bar>26::real\<bar> \<le> 2 ^ 900)) \<and>
   (\<exists>r1 r2. convert_unit (Fin 26) ''mile'' ''kilometer'' = (Inr r1, []) \<and>
          convert_unit r1 ''kilometer'' ''mile'' = (Inr r2, []) \<and>
          close_to (1 / 10 ^ 9) r2 26)"
proof -
  let ?us = "[''meter'', ''kilometer'', ''centimeter'', ''millimeter'', ''mile'', ''yard'',
       ''foot'', ''inch'']"
  have c: "(''Length'', ?us) \<in> set CONVERSION_CATEGORIES"
    by (simp add: CONVERSION_CATEGORIES_def)
  have u: "''mile'' \<in> set ?us" and w: "''kilometer'' \<in> set ?us" by simp_all
  have t: "''mile'' \<notin> set temperature_units" "''kilometer'' \<notin> set temperature_units"
    by (simp_all add: temperature_units_def)
  have x: "(26::real) = 0 \<or> (1 / 2 ^ 900 \<le> \<bar>26::real\<bar> \<and> \<bar>26::real\<bar> \<le> 2 ^ 900)"
    by simp
  show ?thesis
    using c t x round_trip_within_tolerance [OF c u w t x] by simp
qed

subsection \<open>C6: the bound on the history\<close>

text \<open>
  C6. After \<^verbatim>\<open>update_result\<close> the history holds at most ten records, whatever it held
  before; and fifteen requests run from an empty history leave the records of the
  last ten, in the order of the requests.
\<close>

theorem history_keeps_last_ten:
  "length (conversion_history (fst (update_result now s))) \<le> 10 \<and>
   (conversion_history s = [] \<and> length qs = 15 \<longrightarrow>
      conversion_history (run_updates qs s) = map record_of (drop 5 qs))"
proof
  obtain r shown where c:
    "convert_unit (input_value s) (session_state.from_unit s) (session_state.to_unit s) = (Inr r, shown)"
    using convert_unit_returns by blast
  then show "length (conversion_history (fst (update_result now s))) \<le> 10"
    by (simp add: update_result_def keep_last_10_def Let_def)
next
  show "conversion_history s = [] \<and> length qs = 15 \<longrightarrow>
      conversion_history (run_updates qs s) = map record_of (drop 5 qs)"
  proof
    assume a: "conversion_history s = [] \<and> length qs = 15"
    then have "qs \<noteq> []" by auto
    then show "conversion_history (run_updates qs s) = map record_of (drop 5 qs)"
      using a by (simp add: run_updates_history keep_last_10_def drop_map)
  qed
qed

theorem history_keeps_last_ten_witness:
  "conversion_history initial_session = [] \<and> length sample_requests = 15 \<and>
   map from_value (conversion_history (run_updates sample_requests initial_session)) =
     [Fin 5, Fin 6, Fin 7, Fin 8, Fin 9, Fin 10, Fin 11, Fin 12, Fin 13, Fin 14]"
proof -
  have a: "conversion_history initial_session = [] \<and> length sample_requests = 15"
    by (simp add: initial_session_def sample_requests_def)
  have "conversion_history (run_updates sample_requests initial_session) =
      map record_of (drop 5 sample_requests)"
    using a history_keeps_last_ten [of "''now''" initial_session sample_requests] by blast
  then show ?thesis
    using a by (simp add: sample_requests_def sample_request_def record_of_def)
qed

subsection \<open>C7: the dispatch\<close>

text \<open>
  C7 as stated does not hold in its last part: for celsius to meter the factor path
  is taken and the lookup of \<^verbatim>\<open>celsius\<close> misses, but \<^verbatim>\<open>convert_unit\<close> does not fail; it
  returns \<^verbatim>\<open>0.0\<close>.
\<close>

theorem mixed_pair_does_not_fail:
  "convert_try (Fin 1) ''celsius'' ''meter'' = Inl (KeyError ''celsius'') \<and>
   convert_unit (Fin 1) ''celsius'' ''meter'' =
     (Inr (Fin 0), [ConversionError (KeyError ''celsius'')])"
  by (simp add: convert_unit_def convert_try_def linear_path_def factor_def
      temperature_units_def CONVERSION_FACTORS_def)

text \<open>
  C7, amended. The choice of the path reads the two unit names only: the temperature
  path when both are temperature units, the factor path otherwise; the category of
  the session has no part in the result. When exactly one of the two units is a
  temperature unit, the factor path is taken, the lookup of one of the two units
  misses with a \<^verbatim>\<open>KeyError\<close>, and \<^verbatim>\<open>convert_unit\<close> catches it: it shows the error and
  returns \<^verbatim>\<open>0.0\<close>.
\<close>

theorem dispatch_by_unit_names:
  "convert_try v from_u to_u =
     (if from_u \<in> set temperature_units \<and> to_u \<in> set temperature_units
      then temperature_path v from_u to_u else linear_path v from_u to_u) \<and>
   result (fst (update_result now (s\<lparr>current_category := c\<rparr>))) = result (fst (update_result now s)) \<and>
   ((from_u \<in> set temperature_units) \<noteq> (to_u \<in> set temperature_units) \<longrightarrow>
      (\<exists>k. (k = from_u \<or> k = to_u) \<and> map_of CONVERSION_FACTORS k = None \<and>
           convert_try v from_u to_u = Inl (KeyError k) \<and>
           convert_unit v from_u to_u = (Inr (Fin 0), [ConversionError (KeyError k)])))"
proof -
  have d: "convert_try v from_u to_u =
     (if from_u \<in> set temperature_units \<and> to_u \<in> set temperature_units
      then temperature_path v from_u to_u else linear_path v from_u to_u)"
    by (simp add: convert_try_def)
  have c: "result (fst (update_result now (s\<lparr>current_category := c\<rparr>))) =
      result (fst (update_result now s))"
  proof -
    obtain r shown where
      "convert_unit (input_value s) (session_state.from_unit s) (session_state.to_unit s) = (Inr r, shown)"
      using convert_unit_returns by blast
    then show ?thesis by (simp add: update_result_def Let_def)
  qed
  have m: "\<exists>k. (k = from_u \<or> k = to_u) \<and> map_of CONVERSION_FACTORS k = None \<and>
           convert_try v from_u to_u = Inl (KeyError k) \<and>
           convert_unit v from_u to_u = (Inr (Fin 0), [ConversionError (KeyError k)])"
    if x: "(from_u \<in> set temperature_units) \<noteq> (to_u \<in> set temperature_units)"
  proof -
    have path: "convert_try v from_u to_u = linear_path v from_u to_u"
      using x by (auto simp: convert_try_def)
    have miss: "map_of CONVERSION_FACTORS from_u = None \<or> map_of CONVERSION_FACTORS to_u = None"
      using x factor_not_temperature by (cases "map_of CONVERSION_FACTORS from_u";
          cases "map_of CONVERSION_FACTORS to_u") auto
    define k where "k = (if map_of CONVERSION_FACTORS from_u = None then from_u else to_u)"
    have "(k = from_u \<or> k = to_u) \<and> map_of CONVERSION_FACTORS k = None"
      using miss by (auto simp: k_def)
    moreover have "convert_try v from_u to_u = Inl (KeyError k)"
      unfolding path using miss
      by (auto simp: linear_path_def factor_def k_def Let_def split: option.splits)
    moreover have "convert_unit v from_u to_u = (Inr (Fin 0), [ConversionError (KeyError k)])"
      using calculation by (simp add: convert_unit_def)
    ultimately show ?thesis by blast
  qed
  show ?thesis using d c m by blast
qed

theorem dispatch_by_unit_names_witness:
  "(''gram'' \<in> set temperature_units) \<noteq> (''kelvin'' \<in> set temperature_units) \<and>
   convert_try (Fin 2) ''gram'' ''kelvin'' = linear_path (Fin 2) ''gram'' ''kelvin'' \<and>
   convert_try (Fin 2) ''gram'' ''kelvin'' = Inl (KeyError ''kelvin'') \<and>
   convert_unit (Fin 2) ''gram'' ''kelvin'' =
     (Inr (Fin 0), [ConversionError (KeyError ''kelvin'')])"
proof -
  note t = dispatch_by_unit_names [where v = "Fin 2" and from_u = "''gram''" and to_u = "''kelvin''"
      and now = "''2023-01-01 12:00:00''" and s = initial_session and c = "''Mass''"]
  have a: "(''gram'' \<in> set temperature_units) \<noteq> (''kelvin'' \<in> set temperature_units)"
    by (simp add: temperature_units_def)
  have g: "''gram'' \<notin> set temperature_units"
    by (simp add: temperature_units_def)
  have c: "map_of CONVERSION_FACTORS ''gram'' \<noteq> None"
    by (simp add: CONVERSION_FACTORS_def)
  have p: "convert_try (Fin 2) ''gram'' ''kelvin'' = linear_path (Fin 2) ''gram'' ''kelvin''"
    using t g by simp
  obtain k where k: "k = ''gram'' \<or> k = ''kelvin''" "map_of CONVERSION_FACTORS k = None"
    "convert_try (Fin 2) ''gram'' ''kelvin'' = Inl (KeyError k)"
    "convert_unit (Fin 2) ''gram'' ''kelvin'' = (Inr (Fin 0), [ConversionError (KeyError k)])"
    using t a by blast
  have "k = ''kelvin''" using k(1,2) c by auto
  then show ?thesis using a p k by simp
qed

subsection \<open>C8: the temperature fixed points\<close>

text \<open>
  C8. \<^verbatim>\<open>convert_unit(0, "celsius", "fahrenheit")\<close> is exactly 32,
  \<^verbatim>\<open>convert_unit(100, "celsius", "fahrenheit")\<close> is exactly 212, and
  \<^verbatim>\<open>convert_unit(0, "celsius", "kelvin")\<close> is exactly the double of the literal
  \<^verbatim>\<open>273.15\<close>; each result is \<^verbatim>\<open>==\<close> to the expected float.
\<close>

theorem temperature_fixed_points:
  "convert_unit (Fin 0) ''celsius'' ''fahrenheit'' = (Inr (Fin 32), []) \<and> feq (Fin 32) (Fin 32) \<and>
   convert_unit (Fin 100) ''celsius'' ''fahrenheit'' = (Inr (Fin 212), []) \<and> feq (Fin 212) (Fin 212) \<and>
   convert_unit (Fin 0) ''celsius'' ''kelvin'' = (Inr (rd 273.15), []) \<and> feq (rd 273.15) (rd 273.15)"
proof -
  have a: "convert_unit (Fin 0) ''celsius'' ''fahrenheit'' = (Inr (Fin 32), [])"
    by (simp add: convert_unit_def convert_try_def temperature_units_member temperature_path_def
        kelvin_offset_value fsub_def rd_kelvin_offset rd_zero rd_32)
  have b: "convert_unit (Fin 100) ''celsius'' ''fahrenheit'' = (Inr (Fin 212), [])"
    by (simp add: convert_unit_def convert_try_def temperature_units_member temperature_path_def
        kelvin_offset_value fsub_def rd_37315 rd_100 rd_900 rd_180 rd_212)
  have "convert_unit (Fin 0) ''celsius'' ''kelvin'' = (Inr kelvin_offset, [])"
    by (simp add: convert_unit_def convert_try_def temperature_units_member temperature_path_def
        kelvin_offset_value rd_kelvin_offset)
  then have c: "convert_unit (Fin 0) ''celsius'' ''kelvin'' = (Inr (rd 273.15), [])"
    by (simp only: kelvin_offset_def)
  have d: "feq (rd 273.15) (rd 273.15)"
    by (simp only: rd_27315) (simp add: feq_def)
  show ?thesis using a b c d by (simp add: feq_def)
qed

subsection \<open>C9: a failed conversion and the history\<close>

text \<open>
  C9 as stated does not hold of \<^verbatim>\<open>update_result\<close>. With the units celsius and meter in
  the session the conversion fails: the lookup of \<^verbatim>\<open>celsius\<close> raises inside
  \<^verbatim>\<open>convert_unit\<close>. Yet \<^verbatim>\<open>0.0\<close> comes back, and \<^verbatim>\<open>update_result\<close> stores it as the result
  and appends a record holding it to the empty history.
\<close>

theorem failed_conversion_is_recorded:
  "convert_try (Fin 1) ''celsius'' ''meter'' = Inl (KeyError ''celsius'') \<and>
   update_result ''2023-01-01 12:00:00''
     (initial_session\<lparr>session_state.from_unit := ''celsius'', session_state.to_unit := ''meter''\<rparr>) =
   (initial_session\<lparr>session_state.from_unit := ''celsius'', session_state.to_unit := ''meter'',
      result := Fin 0,
      conversion_history :=
        [\<lparr>timestamp = ''2023-01-01 12:00:00'', category = ''Length'', from_value = Fin 1,
          conversion_record.from_unit = ''celsius'', to_value = Fin 0,
          conversion_record.to_unit = ''meter''\<rparr>]\<rparr>,
    [ConversionError (KeyError ''celsius'')])"
  by (simp add: update_result_def initial_session_def convert_unit_def convert_try_def
      linear_path_def factor_def temperature_units_def CONVERSION_FACTORS_def keep_last_10_def
      rd_1 Let_def)

text \<open>
  C9, amended. \<^verbatim>\<open>update_result\<close> appends a record after every call of \<^verbatim>\<open>convert_unit\<close>,
  which always returns: the record holds the result of the conversion when the body
  of \<^verbatim>\<open>convert_unit\<close> succeeds, and the substituted \<^verbatim>\<open>0.0\<close>, after the error is shown,
  when it fails. For two units of the current category of the session the conversion
  succeeds, nothing is shown, and the record holds its result.
\<close>

theorem update_result_records_what_returns:
  "update_result now s =
     (case convert_try (input_value s) (session_state.from_unit s) (session_state.to_unit s) of
        Inr q \<Rightarrow> (with_record now s q, [])
      | Inl e \<Rightarrow> (with_record now s (Fin 0), [ConversionError e])) \<and>
   ((current_category s, us) \<in> set CONVERSION_CATEGORIES \<and>
    session_state.from_unit s \<in> set us \<and> session_state.to_unit s \<in> set us \<longrightarrow>
      (\<exists>q. convert_try (input_value s) (session_state.from_unit s) (session_state.to_unit s) = Inr q \<and>
           update_result now s = (with_record now s q, [])))"
proof -
  let ?c = "convert_try (input_value s) (session_state.from_unit s) (session_state.to_unit s)"
  have a: "update_result now s =
     (case ?c of Inr q \<Rightarrow> (with_record now s q, [])
      | Inl e \<Rightarrow> (with_record now s (Fin 0), [ConversionError e]))"
    by (cases ?c) (simp_all add: update_result_def convert_unit_def with_record_def Let_def)
  have b: "\<exists>q. ?c = Inr q \<and> update_result now s = (with_record now s q, [])"
    if h: "(current_category s, us) \<in> set CONVERSION_CATEGORIES"
      "session_state.from_unit s \<in> set us" "session_state.to_unit s \<in> set us"
  proof -
    obtain q where q: "?c = Inr q" using same_category_converts [OF h] by blast
    then have "update_result now s = (with_record now s q, [])" using a by simp
    with q show ?thesis by blast
  qed
  show ?thesis using a b by blast
qed

theorem update_result_records_what_returns_witness:
  "(current_category initial_session,
      [''meter'', ''kilometer'', ''centimeter'', ''millimeter'', ''mile'', ''yard'', ''foot'',
       ''inch'']) \<in> set CONVERSION_CATEGORIES \<and>
   session_state.from_unit initial_session \<in>
     set [''meter'', ''kilometer'', ''centimeter'', ''millimeter'', ''mile'', ''yard'', ''foot'',
       ''inch''] \<and>
   session_state.to_unit initial_session \<in>
     set [''meter'', ''kilometer'', ''centimeter'', ''millimeter'', ''mile'', ''yard'', ''foot'',
       ''inch''] \<and>
   (\<exists>q. convert_try (rd 1.0) ''meter'' ''kilometer'' = Inr q \<and>
        update_result ''2023-01-01 12:00:00'' initial_session =
          (with_record ''2023-01-01 12:00:00'' initial_session q, []))"
proof -
  let ?us = "[''meter'', ''kilometer'', ''centimeter'', ''millimeter'', ''mile'', ''yard'',
      ''foot'', ''inch'']"
  have c: "(current_category initial_session, ?us) \<in> set CONVERSION_CATEGORIES"
    by (simp add: initial_session_def CONVERSION_CATEGORIES_def)
  have u: "session_state.from_unit initial_session \<in> set ?us"
    and w: "session_state.to_unit initial_session \<in> set ?us"
    by (simp_all add: initial_session_def)
  have i: "input_value initial_session = rd 1.0"
    "session_state.from_unit initial_session = ''meter''"
    "session_state.to_unit initial_session = ''kilometer''"
    by (simp_all add: initial_session_def)
  show ?thesis
    using c u w
      update_result_records_what_returns [of "''2023-01-01 12:00:00''" initial_session ?us]
    unfolding i by blast
qed

subsection \<open>C10: positive factors, no division by zero\<close>

text \<open>
  C10. Every entry of the factor table is a finite, strictly positive double; every
  unit of the catalog that is not a temperature unit has an entry; hence for two
  such units both lookups succeed, the divisor is not zero, and the division of the
  factor path raises nothing.
\<close>

theorem factors_positive_no_zero_division:
  "(\<forall>(u, d) \<in> set CONVERSION_FACTORS. \<exists>f. d = Fin f \<and> 0 < f) \<and>
   (\<forall>u \<in> set catalog_units. u \<notin> set temperature_units \<longrightarrow>
      map_of CONVERSION_FACTORS u \<noteq> None) \<and>
   (\<forall>u \<in> set catalog_units. \<forall>w \<in> set catalog_units.
      u \<notin> set temperature_units \<and> w \<notin> set temperature_units \<longrightarrow>
      (\<exists>a b r. factor u = Inr a \<and> factor w = Inr (Fin b) \<and> b \<noteq> 0 \<and>
         fdiv (fmul v a) (Fin b) = Inr r \<and> convert_try v u w = Inr r))"
proof -
  have p: "\<forall>(u, d) \<in> set CONVERSION_FACTORS. \<exists>f. d = Fin f \<and> 0 < f"
    using factor_positive by blast
  have q: "\<forall>u \<in> set catalog_units. u \<notin> set temperature_units \<longrightarrow>
      map_of CONVERSION_FACTORS u \<noteq> None"
    using catalog_unit_has_factor by blast
  have r: "\<exists>a b r. factor u = Inr a \<and> factor w = Inr (Fin b) \<and> b \<noteq> 0 \<and>
         fdiv (fmul v a) (Fin b) = Inr r \<and> convert_try v u w = Inr r"
    if u: "u \<in> set catalog_units" and w: "w \<in> set catalog_units"
      and t: "u \<notin> set temperature_units \<and> w \<notin> set temperature_units" for u w
  proof -
    obtain a where a: "map_of CONVERSION_FACTORS u = Some a"
      using catalog_unit_has_factor u t by blast
    obtain fb where fb: "map_of CONVERSION_FACTORS w = Some fb"
      using catalog_unit_has_factor w t by blast
    obtain b where b: "fb = Fin b" "0 < b"
      using factor_positive [OF map_of_SomeD [OF fb]] by blast
    obtain r where r: "fdiv (fmul v a) (Fin b) = Inr r"
      using fdiv_nonzero [of b] b(2) by auto
    have "convert_try v u w = Inr r"
      using t a fb b(1) r by (simp add: convert_try_def linear_path_def factor_def)
    then show ?thesis
      using a fb b r by (auto simp: factor_def)
  qed
  show ?thesis using p q r by blast
qed

theorem factors_positive_no_zero_division_witness:
  "(''psi'', rd 6894.76) \<in> set CONVERSION_FACTORS \<and> (\<exists>f. rd 6894.76 = Fin f \<and> 0 < f) \<and>
   ''psi'' \<in> set catalog_units \<and> ''bar'' \<in> set catalog_units \<and>
   ''psi'' \<notin> set temperature_units \<and> ''bar'' \<notin> set temperature_units \<and>
   map_of CONVERSION_FACTORS ''psi'' \<noteq> None \<and>
   (\<exists>a b r. factor ''bar'' = Inr a \<and> factor ''psi'' = Inr (Fin b) \<and> b \<noteq> 0 \<and>
      fdiv (fmul (Fin 2) a) (Fin b) = Inr r \<and> convert_try (Fin 2) ''bar'' ''psi'' = Inr r)"
proof -
  have a: "(''psi'', rd 6894.76) \<in> set CONVERSION_FACTORS"
    by (simp add: CONVERSION_FACTORS_def)
  have b: "''psi'' \<in> set catalog_units" "''bar'' \<in> set catalog_units"
    by (simp_all add: catalog_units_def CONVERSION_CATEGORIES_def)
  have c: "''psi'' \<notin> set temperature_units" "''bar'' \<notin> set temperature_units"
    by (simp_all add: temperature_units_def)
  show ?thesis
    using a b c factors_positive_no_zero_division [of "Fin 2"] by blast
qed

end
